theory Spec2Isabelle
  imports Main "HOL-Library.Multiset" "HOL-Library.Sublist"
begin

section \<open>Strings\<close>

text \<open>
  A JavaScript string is modelled as a \<^typ>\<open>string\<close>: a list of 8-bit code units, the
  Latin-1 range of JavaScript's UTF-16 code units. The built-in string functions the program
  calls are written out on that range.
\<close>

definition code_unit :: "char \<Rightarrow> nat" where
  "code_unit c = of_char c"

text \<open>\<^verbatim>\<open>String.prototype.toLowerCase\<close>: A-Z, and the Latin-1 capitals 0xC0-0xDE but 0xD7.\<close>

definition toLowerCase_unit :: "char \<Rightarrow> char" where
  "toLowerCase_unit c =
     (let n = code_unit c in
      if (65 \<le> n \<and> n \<le> 90) \<or> (192 \<le> n \<and> n \<le> 222 \<and> n \<noteq> 215)
      then char_of (n + 32) else c)"

definition toLowerCase :: "string \<Rightarrow> string" where
  "toLowerCase s = map toLowerCase_unit s"

text \<open>
  \<^verbatim>\<open>String.prototype.trim\<close> removes white space and line terminators at both ends: TAB, LF,
  VT, FF, CR, SPACE and NBSP in this range.
\<close>

definition isWhiteSpace :: "char \<Rightarrow> bool" where
  "isWhiteSpace c = (code_unit c \<in> {9, 10, 11, 12, 13, 32, 160})"

definition trim :: "string \<Rightarrow> string" where
  "trim s = rev (dropWhile isWhiteSpace (rev (dropWhile isWhiteSpace s)))"

text \<open>
  Matching under the \<^verbatim>\<open>i\<close> flag compares canonicalised code units. Every pattern of the
  program is made of ASCII characters, which only an ASCII code unit can match, so
  canonicalisation is written for a-z and leaves the other code units alone.
\<close>

definition canonicalize :: "char \<Rightarrow> char" where
  "canonicalize c =
     (let n = code_unit c in if 97 \<le> n \<and> n \<le> 122 then char_of (n - 32) else c)"

text \<open>\<^verbatim>\<open>str.match(/^pat/i)\<close> for a pattern \<open>pat\<close> of literal characters.\<close>

definition match_prefix_i :: "string \<Rightarrow> string \<Rightarrow> bool" where
  "match_prefix_i pat str =
     (length pat \<le> length str \<and>
      map canonicalize (take (length pat) str) = map canonicalize pat)"

text \<open>The pattern \<^verbatim>\<open>.\<close> matches any code unit but a line terminator.\<close>

definition match_dot :: "char \<Rightarrow> bool" where
  "match_dot c = (code_unit c \<noteq> 10 \<and> code_unit c \<noteq> 13)"

text \<open>\<^verbatim>\<open>str.split(/\r|\n|\r\n/)\<close>: every CR and every LF ends a piece.\<close>

fun split_lines :: "string \<Rightarrow> string list" where
  "split_lines [] = [[]]"
| "split_lines (c # cs) =
     (if code_unit c = 13 \<or> code_unit c = 10 then [] # split_lines cs
      else (case split_lines cs of [] \<Rightarrow> [[c]] | l # ls \<Rightarrow> (c # l) # ls))"

text \<open>\<^verbatim>\<open>str.split('/')\<close>.\<close>

fun split_slash :: "string \<Rightarrow> string list" where
  "split_slash [] = [[]]"
| "split_slash (c # cs) =
     (if c = CHR ''/'' then [] # split_slash cs
      else (case split_slash cs of [] \<Rightarrow> [[c]] | l # ls \<Rightarrow> (c # l) # ls))"

text \<open>\<^verbatim>\<open>Array.prototype.join\<close> on an array of strings.\<close>

fun join :: "string \<Rightarrow> string list \<Rightarrow> string" where
  "join sep [] = []"
| "join sep [s] = s"
| "join sep (s # t # ss) = s @ sep @ join sep (t # ss)"

text \<open>
  \<^verbatim>\<open>encodeURIComponent\<close>: letters, digits and \<^verbatim>\<open>-_.!~*'()\<close> are kept, every other code unit
  is written as the percent-escaped bytes of its UTF-8 encoding (one byte below 128, two bytes
  from 128 to 255).
\<close>

definition hex_digit :: "nat \<Rightarrow> char" where
  "hex_digit n = (if n < 10 then char_of (48 + n) else char_of (55 + n))"

definition percent :: "nat \<Rightarrow> string" where
  "percent b = [CHR ''%'', hex_digit (b div 16), hex_digit (b mod 16)]"

definition isUnreserved :: "char \<Rightarrow> bool" where
  "isUnreserved c =
     (let n = code_unit c in
      (65 \<le> n \<and> n \<le> 90) \<or> (97 \<le> n \<and> n \<le> 122) \<or> (48 \<le> n \<and> n \<le> 57) \<or>
      c \<in> set ''-_.!~*()'' \<or> n = 39)"

definition encode_unit :: "char \<Rightarrow> string" where
  "encode_unit c =
     (let n = code_unit c in
      if isUnreserved c then [c]
      else if n < 128 then percent n
      else percent (192 + n div 64) @ percent (128 + n mod 64))"

definition encodeURIComponent :: "string \<Rightarrow> string" where
  "encodeURIComponent s = concat (map encode_unit s)"

section \<open>Response objects\<close>

text \<open>
  The parsed JSON bodies the program reads are objects of the Web API's object model. One
  type holds every property the program reads; a property may be missing (\<open>None\<close>, read as
  \<^verbatim>\<open>undefined\<close>) and has the type the API documents when it is there. The property
  \<^verbatim>\<open>artists\<close> is an array of artist objects in a track object and a paging object in a search
  result.
\<close>

datatype obj = Obj
  (j_id: "string option") (j_uri: "string option") (j_name: "string option")
  (j_artists: "artists option") (j_album: "obj option") (j_popularity: "int option")
  (j_tracks: "obj option") (j_albums: "obj option") (j_items: "obj list option")
and artists = ArtistArray "obj list" | ArtistPaging obj

text \<open>
  A number of a response is held as an integer, as the Web API documents the popularity (0
  to 100); the program compares numbers as the doubles they are, which order the integers up
  to \<open>2 ^ 53\<close> as the integers are ordered.
\<close>

text \<open>Truthiness of a string, of a number and of an object or array.\<close>

definition truthy_str :: "string option \<Rightarrow> bool" where
  "truthy_str v = (case v of None \<Rightarrow> False | Some s \<Rightarrow> s \<noteq> [])"

definition truthy_num :: "int option \<Rightarrow> bool" where
  "truthy_num v = (case v of None \<Rightarrow> False | Some n \<Rightarrow> n \<noteq> 0)"

definition truthy :: "'a option \<Rightarrow> bool" where
  "truthy v = (v \<noteq> None)"

text \<open>\<^verbatim>\<open>a[0]\<close> on an array.\<close>

definition first :: "'a list \<Rightarrow> 'a option" where
  "first xs = (case xs of [] \<Rightarrow> None | x # _ \<Rightarrow> Some x)"

text \<open>
  The response of Last.fm's \<^verbatim>\<open>track.getInfo\<close>: \<^verbatim>\<open>{track: {playcount: "..."}}\<close>. The
  play count is held as the number \<^verbatim>\<open>parseInt\<close> reads from the text, \<open>None\<close> where that is
  \<^verbatim>\<open>NaN\<close>.
\<close>

datatype lastfm_track = LastfmTrack (playcount: "int option")

datatype lastfm_info = LastfmInfo (lastfm_track: "lastfm_track option")

datatype error = TypeError | RequestFailed | Rejected

section \<open>Track\<close>

record entry_base =
  entry :: string

record track = entry_base +
  responseSimple :: "obj option"
  response :: "obj option"
  lastfmResponse :: "lastfm_info option"

definition isFullResponse :: "obj option \<Rightarrow> bool" where
  "isFullResponse resp =
     (case resp of None \<Rightarrow> False | Some r \<Rightarrow> truthy_num (j_popularity r))"

definition Track :: "string \<Rightarrow> obj option \<Rightarrow> track" where
  "Track text resp =
     (if isFullResponse resp
      then \<lparr>entry = trim text, responseSimple = None, response = resp,
            lastfmResponse = None\<rparr>
      else \<lparr>entry = trim text, responseSimple = resp, response = None,
            lastfmResponse = None\<rparr>)"

definition isURI :: "string \<Rightarrow> bool" where
  "isURI str = match_prefix_i ''spotify:track:'' str"

definition isLink :: "string \<Rightarrow> bool" where
  "isLink str =
     (match_prefix_i ''http://open.spotify.com/track/'' str \<or>
      match_prefix_i ''https://open.spotify.com/track/'' str)"

text \<open>
  What \<^verbatim>\<open>id()\<close> returns: a string, the number -1, or \<^verbatim>\<open>undefined\<close> where
  \<^verbatim>\<open>split('/')\<close> has no fifth piece. \<^verbatim>\<open>encodeURIComponent\<close> is its only reader.
\<close>

datatype id_value = IdString string | IdMinusOne | IdUndefined

definition encodeURIComponent_id :: "id_value \<Rightarrow> string" where
  "encodeURIComponent_id v =
     (case v of IdString s \<Rightarrow> encodeURIComponent s
      | IdMinusOne \<Rightarrow> ''-1''
      | IdUndefined \<Rightarrow> ''undefined'')"

text \<open>\<^verbatim>\<open>r && r.id\<close>, as a condition and as the value then read.\<close>

definition truthy_id :: "obj option \<Rightarrow> string option" where
  "truthy_id r =
     (case r of None \<Rightarrow> None
      | Some b \<Rightarrow> (if truthy_str (j_id b) then j_id b else None))"

definition Track_id :: "track \<Rightarrow> id_value" where
  "Track_id this =
     (case truthy_id (response this) of
        Some i \<Rightarrow> IdString i
      | None \<Rightarrow>
         (case truthy_id (responseSimple this) of
            Some i \<Rightarrow> IdString i
          | None \<Rightarrow>
             (if isURI (entry this) then IdString (drop 14 (entry this))
              else if isLink (entry this) then
                (case drop 4 (split_slash (entry this)) of
                   [] \<Rightarrow> IdUndefined | p # _ \<Rightarrow> IdString p)
              else IdMinusOne)))"

text \<open>\<^verbatim>\<open>uri()\<close>; \<open>None\<close> is \<^verbatim>\<open>undefined\<close>, a response without the property.\<close>

definition Track_uri :: "track \<Rightarrow> string option" where
  "Track_uri this =
     (case response this of
        Some r \<Rightarrow> j_uri r
      | None \<Rightarrow> (case responseSimple this of Some s \<Rightarrow> j_uri s | None \<Rightarrow> Some []))"

text \<open>\<^verbatim>\<open>popularity()\<close>; \<open>None\<close> is \<^verbatim>\<open>undefined\<close>.\<close>

definition Track_popularity :: "track \<Rightarrow> int option" where
  "Track_popularity this =
     (case response this of Some r \<Rightarrow> j_popularity r | None \<Rightarrow> Some (- 1))"

text \<open>\<^verbatim>\<open>this.response || this.responseSimple\<close>.\<close>

definition response_or_simple :: "track \<Rightarrow> obj option" where
  "response_or_simple this =
     (case response this of Some r \<Rightarrow> Some r | None \<Rightarrow> responseSimple this)"

text \<open>\<^verbatim>\<open>artists[0]\<close>: a paging object has no property \<^verbatim>\<open>0\<close>.\<close>

definition artists_first :: "artists \<Rightarrow> obj option" where
  "artists_first a = (case a of ArtistArray xs \<Rightarrow> first xs | ArtistPaging _ \<Rightarrow> None)"

definition Track_artist :: "track \<Rightarrow> string" where
  "Track_artist this =
     (case response_or_simple this of
        None \<Rightarrow> []
      | Some r \<Rightarrow>
         (case j_artists r of
            None \<Rightarrow> []
          | Some a \<Rightarrow>
             (case artists_first a of
                None \<Rightarrow> []
              | Some x \<Rightarrow> (if truthy_str (j_name x) then trim (the (j_name x)) else []))))"

text \<open>
  \<^verbatim>\<open>artist.name.trim()\<close> in the callback of \<^verbatim>\<open>artists()\<close>: a missing name has no
  \<^verbatim>\<open>trim\<close>.
\<close>

fun artist_names :: "obj list \<Rightarrow> error + string list" where
  "artist_names [] = Inr []"
| "artist_names (x # xs) =
     (case j_name x of
        None \<Rightarrow> Inl TypeError
      | Some n \<Rightarrow> (case artist_names xs of Inl e \<Rightarrow> Inl e | Inr ns \<Rightarrow> Inr (trim n # ns)))"

text \<open>
  \<^verbatim>\<open>artists()\<close>: the condition reads \<^verbatim>\<open>this.response || this.responseSimple\<close>, the body
  reads \<^verbatim>\<open>this.response.artists.map\<close>.
\<close>

definition Track_artists :: "track \<Rightarrow> error + string" where
  "Track_artists this =
     (case response_or_simple this of
        None \<Rightarrow> Inr (join '', '' [])
      | Some r \<Rightarrow>
         (if truthy (j_artists r) then
            (case response this of
               None \<Rightarrow> Inl TypeError
             | Some full \<Rightarrow>
                (case j_artists full of
                   None \<Rightarrow> Inl TypeError
                 | Some (ArtistPaging _) \<Rightarrow> Inl TypeError
                 | Some (ArtistArray xs) \<Rightarrow>
                    (case artist_names xs of
                       Inl e \<Rightarrow> Inl e
                     | Inr ns \<Rightarrow> Inr (join '', '' ns))))
          else Inr (join '', '' [])))"

definition Track_title :: "track \<Rightarrow> string" where
  "Track_title this =
     (case response_or_simple this of
        None \<Rightarrow> []
      | Some r \<Rightarrow> (if truthy_str (j_name r) then the (j_name r) else []))"

definition Track_album :: "track \<Rightarrow> string" where
  "Track_album this =
     (case response this of
        None \<Rightarrow> []
      | Some r \<Rightarrow>
         (case j_album r of
            None \<Rightarrow> []
          | Some a \<Rightarrow> (if truthy_str (j_name a) then the (j_name a) else [])))"

definition Track_name :: "track \<Rightarrow> string" where
  "Track_name this =
     (let title = Track_title this in
      if title \<noteq> [] then
        (let artist = Track_artist this in
         if artist \<noteq> [] then title @ '' - '' @ artist else title)
      else [])"

definition Track_toString :: "track \<Rightarrow> string" where
  "Track_toString this =
     (let name = Track_name this in if name \<noteq> [] then name else entry this)"

definition Track_equals :: "track \<Rightarrow> track \<Rightarrow> bool" where
  "Track_equals this track =
     (let str1 = toLowerCase (Track_toString this);
          str2 = toLowerCase (Track_toString track)
      in str1 = str2)"

text \<open>\<^verbatim>\<open>lastfm()\<close>; \<open>None\<close> is \<^verbatim>\<open>NaN\<close>.\<close>

definition Track_lastfm :: "track \<Rightarrow> error + int option" where
  "Track_lastfm this =
     (case lastfmResponse this of
        None \<Rightarrow> Inr (Some (- 1))
      | Some (LastfmInfo None) \<Rightarrow> Inl TypeError
      | Some (LastfmInfo (Some t)) \<Rightarrow> Inr (playcount t))"

section \<open>Album and Artist\<close>

record album_base = entry_base +
  albumResponse :: "obj option"

record album = album_base +
  searchResponse :: "obj option"

record artist = album_base +
  artistResponse :: "obj option"

text \<open>
  \<^verbatim>\<open>response && response.P && response.P.items[0] && response.P.items[0].id\<close> for the
  paging object \<open>P\<close> of a search result; reading \<^verbatim>\<open>[0]\<close> of a missing \<^verbatim>\<open>items\<close> raises.
\<close>

definition first_item_id :: "obj option \<Rightarrow> error + bool" where
  "first_item_id paging =
     (case paging of
        None \<Rightarrow> Inr False
      | Some p \<Rightarrow>
         (case j_items p of
            None \<Rightarrow> Inl TypeError
          | Some xs \<Rightarrow>
             (case first xs of None \<Rightarrow> Inr False | Some x \<Rightarrow> Inr (truthy_str (j_id x)))))"

definition Album_isSearchResponse :: "obj option \<Rightarrow> error + bool" where
  "Album_isSearchResponse resp =
     (case resp of None \<Rightarrow> Inr False | Some r \<Rightarrow> first_item_id (j_albums r))"

definition Album_isAlbumResponse :: "obj option \<Rightarrow> bool" where
  "Album_isAlbumResponse resp = (truthy_id resp \<noteq> None)"

definition Album :: "string \<Rightarrow> obj option \<Rightarrow> error + album" where
  "Album text resp =
     (case Album_isSearchResponse resp of
        Inl e \<Rightarrow> Inl e
      | Inr True \<Rightarrow> Inr \<lparr>entry = trim text, albumResponse = None, searchResponse = resp\<rparr>
      | Inr False \<Rightarrow>
         (if Album_isAlbumResponse resp
          then Inr \<lparr>entry = trim text, albumResponse = resp, searchResponse = None\<rparr>
          else Inr \<lparr>entry = trim text, albumResponse = None, searchResponse = None\<rparr>))"

text \<open>
  The id of the first hit of a search result, read with every property checked:
  \<^verbatim>\<open>r && r.P && r.P.items && r.P.items[0] && r.P.items[0].id\<close>.
\<close>

definition checked_item_id :: "obj option \<Rightarrow> string option" where
  "checked_item_id paging =
     (case paging of
        None \<Rightarrow> None
      | Some p \<Rightarrow>
         (case j_items p of
            None \<Rightarrow> None
          | Some xs \<Rightarrow> truthy_id (first xs)))"

definition Album_id :: "album \<Rightarrow> id_value" where
  "Album_id this =
     (case truthy_id (albumResponse this) of
        Some i \<Rightarrow> IdString i
      | None \<Rightarrow>
         (case searchResponse this of
            None \<Rightarrow> IdMinusOne
          | Some r \<Rightarrow>
             (case checked_item_id (j_albums r) of
                Some i \<Rightarrow> IdString i
              | None \<Rightarrow> IdMinusOne)))"

definition Artist :: "string \<Rightarrow> artist" where
  "Artist text = \<lparr>entry = trim text, albumResponse = None, artistResponse = None\<rparr>"

definition Artist_isSearchResponse :: "obj option \<Rightarrow> error + bool" where
  "Artist_isSearchResponse resp =
     (case resp of
        None \<Rightarrow> Inr False
      | Some r \<Rightarrow>
         (case j_artists r of
            None \<Rightarrow> Inr False
          | Some (ArtistArray _) \<Rightarrow> Inl TypeError
          | Some (ArtistPaging p) \<Rightarrow> first_item_id (Some p)))"

text \<open>
  \<^verbatim>\<open>Artist.prototype.id\<close> reads \<^verbatim>\<open>artistResponse.artists.items[0]\<close> without checking
  \<^verbatim>\<open>items\<close>; the program calls it after \<^verbatim>\<open>isSearchResponse\<close> has accepted the response.
\<close>

definition Artist_id :: "artist \<Rightarrow> error + id_value" where
  "Artist_id this =
     (case artistResponse this of
        None \<Rightarrow> Inr IdMinusOne
      | Some r \<Rightarrow>
         (case j_artists r of
            None \<Rightarrow> Inr IdMinusOne
          | Some (ArtistArray _) \<Rightarrow> Inl TypeError
          | Some (ArtistPaging p) \<Rightarrow>
             (case j_items p of
                None \<Rightarrow> Inl TypeError
              | Some xs \<Rightarrow>
                 (case truthy_id (first xs) of
                    Some i \<Rightarrow> Inr (IdString i)
                  | None \<Rightarrow> Inr IdMinusOne))))"

section \<open>Objects, the world and promises\<close>

text \<open>
  What a Queue holds: an object with its reference (two items are the same object exactly
  when their references are equal), or \<^verbatim>\<open>undefined\<close>. An assignment to a property of an
  object keeps its reference.
\<close>

datatype item =
    OTrack nat track
  | OAlbum nat album
  | OArtist nat artist
  | OQueue nat "item list"
  | Undefined

definition ref_of :: "item \<Rightarrow> nat option" where
  "ref_of x =
     (case x of OTrack r _ \<Rightarrow> Some r | OAlbum r _ \<Rightarrow> Some r | OArtist r _ \<Rightarrow> Some r
      | OQueue r _ \<Rightarrow> Some r | Undefined \<Rightarrow> None)"

text \<open>\<^verbatim>\<open>a === b\<close>.\<close>

definition same_object :: "item \<Rightarrow> item \<Rightarrow> bool" where
  "same_object a b = (ref_of a = ref_of b)"

text \<open>
  The world outside the objects: the URLs requested so far, in order, and the number of
  objects created so far, which is the next reference.
\<close>

record world =
  requests :: "string list"
  allocated :: nat

definition new_ref :: "world \<Rightarrow> nat \<times> world" where
  "new_ref w = (allocated w, w\<lparr>allocated := Suc (allocated w)\<rparr>)"

text \<open>
  A promise, and as well a synchronous function that may throw, is a function of the world
  that returns the new world and either the rejection (the exception thrown) or the value.
  The chain \<^verbatim>\<open>p.then(f)\<close> runs \<open>f\<close> on the value of \<open>p\<close> and passes a rejection on.
\<close>

type_synonym 'a promise = "world \<Rightarrow> world \<times> (error + 'a)"

definition resolve :: "'a \<Rightarrow> 'a promise" where
  "resolve v w = (w, Inr v)"

definition reject :: "error \<Rightarrow> 'a promise" where
  "reject e w = (w, Inl e)"

definition and_then :: "'a promise \<Rightarrow> ('a \<Rightarrow> 'b promise) \<Rightarrow> 'b promise" where
  "and_then p f w = (case p w of (w', Inl e) \<Rightarrow> (w', Inl e) | (w', Inr v) \<Rightarrow> f v w')"

text \<open>\<^verbatim>\<open>p.then(null, f)\<close>.\<close>

definition or_else :: "'a promise \<Rightarrow> (error \<Rightarrow> 'a promise) \<Rightarrow> 'a promise" where
  "or_else p f w = (case p w of (w', Inl e) \<Rightarrow> f e w' | (w', Inr v) \<Rightarrow> (w', Inr v))"

definition lift :: "error + 'a \<Rightarrow> 'a promise" where
  "lift r w = (w, r)"

text \<open>
  The remote service: what it answers to a URL, given the URLs requested before; \<open>None\<close> is
  a request that \<^verbatim>\<open>spotify.request\<close> rejects (a transport error, a status other than 200, a
  body that is not JSON or that has an \<^verbatim>\<open>error\<close> property).
\<close>

type_synonym gateway = "string list \<Rightarrow> string \<Rightarrow> obj option"

definition request :: "gateway \<Rightarrow> string \<Rightarrow> obj promise" where
  "request gw url w =
     (w\<lparr>requests := requests w @ [url]\<rparr>,
      case gw (requests w) url of None \<Rightarrow> Inl RequestFailed | Some body \<Rightarrow> Inr body)"

section \<open>Queue\<close>

text \<open>
  \<^verbatim>\<open>x.toString()\<close> as \<^verbatim>\<open>Track.prototype.equals\<close> calls it on its argument: a Track has its
  own, the other objects have \<^verbatim>\<open>Object.prototype.toString\<close>, \<^verbatim>\<open>undefined\<close> has none.
\<close>

definition item_toString :: "item \<Rightarrow> error + string" where
  "item_toString x =
     (case x of
        OTrack _ t \<Rightarrow> Inr (Track_toString t)
      | Undefined \<Rightarrow> Inl TypeError
      | _ \<Rightarrow> Inr ''[object Object]'')"

text \<open>
  The condition of \<^verbatim>\<open>contains\<close>:
  \<^verbatim>\<open>(entry.equals && entry.equals(obj)) || entry === obj\<close>.
\<close>

definition item_matches :: "item \<Rightarrow> item \<Rightarrow> error + bool" where
  "item_matches ent obj =
     (case ent of
        Undefined \<Rightarrow> Inl TypeError
      | OTrack _ t \<Rightarrow>
         (case item_toString obj of
            Inl e \<Rightarrow> Inl e
          | Inr str \<Rightarrow>
             Inr (toLowerCase (Track_toString t) = toLowerCase str \<or> same_object ent obj))
      | _ \<Rightarrow> Inr (same_object ent obj))"

fun Queue_contains :: "item list \<Rightarrow> item \<Rightarrow> error + bool" where
  "Queue_contains [] obj = Inr False"
| "Queue_contains (ent # queue) obj =
     (case item_matches ent obj of
        Inl e \<Rightarrow> Inl e
      | Inr True \<Rightarrow> Inr True
      | Inr False \<Rightarrow> Queue_contains queue obj)"

fun dedup_loop :: "item list \<Rightarrow> item list \<Rightarrow> error + item list" where
  "dedup_loop [] result = Inr result"
| "dedup_loop (ent # queue) result =
     (case Queue_contains result ent of
        Inl e \<Rightarrow> Inl e
      | Inr True \<Rightarrow> dedup_loop queue result
      | Inr False \<Rightarrow> dedup_loop queue (result @ [ent]))"

definition Queue_dedup :: "item list \<Rightarrow> error + item list" where
  "Queue_dedup queue = dedup_loop queue []"

fun Queue_flatten :: "item list \<Rightarrow> item list" where
  "Queue_flatten [] = []"
| "Queue_flatten (OQueue r q # queue) = Queue_flatten q @ Queue_flatten queue"
| "Queue_flatten (ent # queue) = ent # Queue_flatten queue"

text \<open>
  \<^verbatim>\<open>Array.prototype.sort(fn)\<close> is the runtime's, not the program's: like the remote service
  it is a parameter, \<open>engine fn xs\<close> being what the runtime does with the comparison function
  \<open>fn\<close> on the array \<open>xs\<close>, the exception it passes on or the elements in their new order.
  What the language fixes for every runtime is written out: \<^verbatim>\<open>undefined\<close> elements go to the
  end without being compared, so the runtime sorts the other elements.
\<close>

type_synonym sort_engine = "(item \<Rightarrow> item \<Rightarrow> error + int) \<Rightarrow> item list \<Rightarrow> error + item list"

definition Queue_sort ::
  "sort_engine \<Rightarrow> (item \<Rightarrow> item \<Rightarrow> error + int) \<Rightarrow> item list \<Rightarrow> error + item list" where
  "Queue_sort engine fn queue =
     (case engine fn (filter (\<lambda>x. x \<noteq> Undefined) queue) of
        Inl e \<Rightarrow> Inl e
      | Inr ys \<Rightarrow> Inr (ys @ filter (\<lambda>x. x = Undefined) queue))"

subsection \<open>group: an array used as a map\<close>

text \<open>
  \<^verbatim>\<open>group\<close> keeps its groups in the properties of an array, \<^verbatim>\<open>var map = []\<close>, and reads
  them back with \<^verbatim>\<open>for (var k in map)\<close>. A key that is an array index (a decimal numeral
  without a leading zero, at most 4294967294) is an element of the array; \<^verbatim>\<open>for-in\<close> visits
  the elements first, by ascending index, and then the other properties in the order of their
  creation.
\<close>

definition digit :: "char \<Rightarrow> int option" where
  "digit c =
     (let n = code_unit c in if 48 \<le> n \<and> n \<le> 57 then Some (int n - 48) else None)"

fun decimal :: "string \<Rightarrow> int \<Rightarrow> int option" where
  "decimal [] acc = Some acc"
| "decimal (c # cs) acc =
     (case digit c of None \<Rightarrow> None | Some d \<Rightarrow> decimal cs (10 * acc + d))"

definition array_index :: "string \<Rightarrow> int option" where
  "array_index key =
     (case key of
        [] \<Rightarrow> None
      | c # cs \<Rightarrow>
         (if c = CHR ''0'' \<and> cs \<noteq> [] then None
          else (case decimal key 0 of
                  None \<Rightarrow> None
                | Some n \<Rightarrow> (if n \<le> 4294967294 then Some n else None))))"

text \<open>
  The names under which an empty array already has a property that is not an array: its own
  \<^verbatim>\<open>length\<close> and what it inherits from \<^verbatim>\<open>Array.prototype\<close> and \<^verbatim>\<open>Object.prototype\<close>
  (ECMAScript 2023). Under such a key \<^verbatim>\<open>map[key].push\<close> is not a function.
\<close>

definition array_properties :: "string list" where
  "array_properties =
     [''length'', ''constructor'', ''at'', ''concat'', ''copyWithin'', ''entries'', ''every'',
      ''fill'', ''filter'', ''find'', ''findIndex'', ''findLast'', ''findLastIndex'', ''flat'',
      ''flatMap'', ''forEach'', ''includes'', ''indexOf'', ''join'', ''keys'', ''lastIndexOf'',
      ''map'', ''pop'', ''push'', ''reduce'', ''reduceRight'', ''reverse'', ''shift'', ''slice'',
      ''some'', ''sort'', ''splice'', ''toLocaleString'', ''toReversed'', ''toSorted'',
      ''toSpliced'', ''toString'', ''unshift'', ''values'', ''with'', ''hasOwnProperty'',
      ''isPrototypeOf'', ''propertyIsEnumerable'', ''valueOf'', ''__defineGetter__'',
      ''__defineSetter__'', ''__lookupGetter__'', ''__lookupSetter__'']"

type_synonym group_map = "(string \<times> item list) list"

text \<open>\<^verbatim>\<open>if (!map[key]) { map[key] = [] }; map[key].push(entry)\<close> for a key of the map's own.\<close>

definition map_push :: "string \<Rightarrow> item \<Rightarrow> group_map \<Rightarrow> group_map" where
  "map_push key ent m =
     (if map_of m key = None then m @ [(key, [ent])]
      else map (\<lambda>(k, v). if k = key then (k, v @ [ent]) else (k, v)) m)"

text \<open>
  The first loop of \<^verbatim>\<open>group\<close>. Under the key \<^verbatim>\<open>__proto__\<close>, \<^verbatim>\<open>map[key]\<close> is
  \<^verbatim>\<open>Array.prototype\<close> itself, and \<^verbatim>\<open>push\<close> appends the entry to it: \<open>proto\<close> holds these
  entries (an \<^verbatim>\<open>Array.prototype\<close> without elements before the call is assumed). The map
  inherits them: under a key that is the index of one of them and not a key of the map's own,
  \<^verbatim>\<open>map[key]\<close> is that entry, an object without \<^verbatim>\<open>push\<close>, unless the entry is
  \<^verbatim>\<open>undefined\<close>.
\<close>

definition inherited :: "string \<Rightarrow> item list \<Rightarrow> item option" where
  "inherited key proto =
     (case array_index key of
        None \<Rightarrow> None
      | Some n \<Rightarrow>
         (if n < int (length proto) \<and> proto ! nat n \<noteq> Undefined then Some (proto ! nat n)
          else None))"

fun group_loop ::
  "(item \<Rightarrow> error + string) \<Rightarrow> item list \<Rightarrow> group_map \<Rightarrow> item list
     \<Rightarrow> error + group_map \<times> item list" where
  "group_loop fn [] m proto = Inr (m, proto)"
| "group_loop fn (ent # queue) m proto =
     (case fn ent of
        Inl e \<Rightarrow> Inl e
      | Inr key \<Rightarrow>
         (if key = ''__proto__'' then group_loop fn queue m (proto @ [ent])
          else if key \<in> set array_properties then Inl TypeError
          else if map_of m key = None \<and> inherited key proto \<noteq> None then Inl TypeError
          else group_loop fn queue (map_push key ent m) proto))"

text \<open>The keys \<^verbatim>\<open>for (var k in map)\<close> visits among the map's own.\<close>

definition index_keys :: "string list \<Rightarrow> (int \<times> string) list" where
  "index_keys keys =
     concat (map (\<lambda>k. case array_index k of None \<Rightarrow> [] | Some n \<Rightarrow> [(n, k)]) keys)"

fun insert_index :: "int \<times> string \<Rightarrow> (int \<times> string) list \<Rightarrow> (int \<times> string) list" where
  "insert_index k [] = [k]"
| "insert_index k (l # ls) =
     (if fst k \<le> fst l then k # l # ls else l # insert_index k ls)"

fun ascending :: "(int \<times> string) list \<Rightarrow> (int \<times> string) list" where
  "ascending [] = []"
| "ascending (k # ks) = insert_index k (ascending ks)"

definition for_in_keys :: "group_map \<Rightarrow> string list" where
  "for_in_keys m =
     map snd (ascending (index_keys (map fst m))) @
     filter (\<lambda>k. array_index k = None) (map fst m)"

text \<open>
  The second loop: the map's own groups, then the elements of \<^verbatim>\<open>Array.prototype\<close> whose
  index the map does not have itself; such an element is an entry, which \<^verbatim>\<open>concat\<close> appends.
\<close>

definition group_result :: "group_map \<Rightarrow> item list \<Rightarrow> item list" where
  "group_result m proto =
     concat (map (\<lambda>k. the (map_of m k)) (for_in_keys m)) @
     map snd (filter (\<lambda>(i, ent). Some (int i) \<notin> set (map array_index (map fst m)))
                (enumerate 0 proto))"

definition Queue_group :: "(item \<Rightarrow> error + string) \<Rightarrow> item list \<Rightarrow> error + item list" where
  "Queue_group fn queue =
     (case group_loop fn queue [] [] of
        Inl e \<Rightarrow> Inl e
      | Inr (m, proto) \<Rightarrow> Inr (group_result m proto))"

subsection \<open>resolveAll\<close>

text \<open>
  \<^verbatim>\<open>resolveAll(fn)\<close> runs \<open>fn\<close> on the entries one after the other, adds each value to the
  result and drops each rejection. The value is the array of the result Queue.
\<close>

fun resolveAll_loop ::
  "('a \<Rightarrow> 'b promise) \<Rightarrow> 'a list \<Rightarrow> 'b list \<Rightarrow> world \<Rightarrow> world \<times> 'b list" where
  "resolveAll_loop fn [] result w = (w, result)"
| "resolveAll_loop fn (ent # queue) result w =
     (case fn ent w of
        (w', Inr v) \<Rightarrow> resolveAll_loop fn queue (result @ [v]) w'
      | (w', Inl _) \<Rightarrow> resolveAll_loop fn queue result w')"

definition Queue_resolveAll :: "('a \<Rightarrow> 'b promise) \<Rightarrow> 'a list \<Rightarrow> 'b list promise" where
  "Queue_resolveAll fn queue w =
     (case resolveAll_loop fn queue [] w of (w', result) \<Rightarrow> (w', Inr result))"

section \<open>Dispatching the entries\<close>

definition fetchTrack :: "gateway \<Rightarrow> track \<Rightarrow> track promise" where
  "fetchTrack gw this =
     and_then
       (request gw (''https://api.spotify.com/v1/tracks/'' @
                    encodeURIComponent_id (Track_id this)))
       (\<lambda>result. resolve (this\<lparr>response := Some result\<rparr>))"

text \<open>
  \<^verbatim>\<open>searchForTrack\<close> resolves with the Track when the first hit has a URI, and with
  \<^verbatim>\<open>undefined\<close> (\<open>None\<close>) otherwise, the callback returning nothing.
\<close>

definition searchForTrack :: "gateway \<Rightarrow> track \<Rightarrow> string \<Rightarrow> track option promise" where
  "searchForTrack gw this query =
     and_then
       (request gw (''https://api.spotify.com/v1/search?type=track&q='' @
                    encodeURIComponent query))
       (\<lambda>result.
          case j_tracks result of
            None \<Rightarrow> resolve None
          | Some tracks \<Rightarrow>
             (case j_items tracks of
                None \<Rightarrow> reject TypeError
              | Some xs \<Rightarrow>
                 (case first xs of
                    None \<Rightarrow> resolve None
                  | Some hit \<Rightarrow>
                     (if truthy_str (j_uri hit)
                      then resolve (Some (this\<lparr>responseSimple := Some hit\<rparr>))
                      else resolve None))))"

definition Track_dispatch :: "gateway \<Rightarrow> track \<Rightarrow> track option promise" where
  "Track_dispatch gw this =
     (if truthy (response this) then resolve (Some this)
      else if truthy (responseSimple this)
        then and_then (fetchTrack gw this) (\<lambda>t. resolve (Some t))
      else if isURI (entry this)
        then and_then (fetchTrack gw this) (\<lambda>t. resolve (Some t))
      else if isLink (entry this)
        then and_then (fetchTrack gw this) (\<lambda>t. resolve (Some t))
      else searchForTrack gw this (entry this))"

text \<open>
  The methods of an Album and of an Artist that assign to a property of \<^verbatim>\<open>self\<close> resolve
  here with the object as assigned, next to their value.
\<close>

definition searchForAlbum :: "gateway \<Rightarrow> album \<Rightarrow> string \<Rightarrow> album promise" where
  "searchForAlbum gw this query =
     or_else
       (and_then
          (request gw (''https://api.spotify.com/v1/search?type=album&q='' @
                       encodeURIComponent query))
          (\<lambda>resp.
             case Album_isSearchResponse (Some resp) of
               Inl e \<Rightarrow> reject e
             | Inr True \<Rightarrow> resolve (this\<lparr>searchResponse := Some resp\<rparr>)
             | Inr False \<Rightarrow> reject Rejected))
       (\<lambda>_. reject Rejected)"

definition fetchAlbum :: "gateway \<Rightarrow> album \<Rightarrow> (album \<times> obj) promise" where
  "fetchAlbum gw this =
     and_then
       (request gw (''https://api.spotify.com/v1/albums/'' @
                    encodeURIComponent_id (Album_id this)))
       (\<lambda>resp.
          if Album_isAlbumResponse (Some resp)
          then resolve (this\<lparr>albumResponse := Some resp\<rparr>, resp)
          else reject Rejected)"

text \<open>\<open>n\<close> new objects.\<close>

definition new_refs :: "nat \<Rightarrow> world \<Rightarrow> nat list \<times> world" where
  "new_refs n w = ([allocated w ..< allocated w + n], w\<lparr>allocated := allocated w + n\<rparr>)"

text \<open>
  \<^verbatim>\<open>Album.prototype.createQueue\<close>: \<^verbatim>\<open>for (var i in tracks)\<close> runs over the elements of the
  array and not at all over \<^verbatim>\<open>undefined\<close>.
\<close>

definition Album_createQueue :: "album \<Rightarrow> obj \<Rightarrow> item promise" where
  "Album_createQueue this resp =
     (case j_tracks resp of
        None \<Rightarrow> reject TypeError
      | Some paging \<Rightarrow>
         (\<lambda>w. let tracks = (case j_items paging of None \<Rightarrow> [] | Some xs \<Rightarrow> xs);
                  (queue, w1) = new_ref w;
                  (refs, w2) = new_refs (length tracks) w1
              in (w2, Inr (OQueue queue
                    (map (\<lambda>(r, x). OTrack r (Track (entry this) (Some x))) (zip refs tracks))))))"

text \<open>
  In the second branch of \<^verbatim>\<open>Album.prototype.dispatch\<close> the callback reads
  \<^verbatim>\<open>this.createQueue\<close>, and \<^verbatim>\<open>this\<close> of a callback is not the Album: the call raises.
\<close>

definition Album_dispatch :: "gateway \<Rightarrow> album \<Rightarrow> item promise" where
  "Album_dispatch gw this =
     (if truthy (searchResponse this) then
        and_then (fetchAlbum gw this) (\<lambda>(self, resp). Album_createQueue self resp)
      else if truthy (albumResponse this) then
        and_then (fetchAlbum gw this) (\<lambda>_. reject TypeError)
      else
        and_then (searchForAlbum gw this (entry this))
          (\<lambda>self. and_then (fetchAlbum gw self)
             (\<lambda>(self, resp). Album_createQueue self resp)))"

definition searchForArtist :: "gateway \<Rightarrow> artist \<Rightarrow> string \<Rightarrow> artist promise" where
  "searchForArtist gw this query =
     and_then
       (request gw (''https://api.spotify.com/v1/search?type=artist&q='' @
                    encodeURIComponent query))
       (\<lambda>resp.
          case Artist_isSearchResponse (Some resp) of
            Inl e \<Rightarrow> reject e
          | Inr True \<Rightarrow> resolve (this\<lparr>artistResponse := Some resp\<rparr>)
          | Inr False \<Rightarrow> reject Rejected)"

definition fetchAlbums :: "gateway \<Rightarrow> artist \<Rightarrow> (artist \<times> obj) promise" where
  "fetchAlbums gw this =
     and_then (lift (Artist_id this))
       (\<lambda>i. and_then
          (request gw (''https://api.spotify.com/v1/artists/'' @
                       encodeURIComponent_id i @ ''/albums''))
          (\<lambda>resp.
             if truthy (j_items resp)
             then resolve (this\<lparr>albumResponse := Some resp\<rparr>, resp)
             else reject Rejected))"

fun new_Albums :: "string \<Rightarrow> obj list \<Rightarrow> error + album list" where
  "new_Albums text [] = Inr []"
| "new_Albums text (x # xs) =
     (case Album text (Some x) of
        Inl e \<Rightarrow> Inl e
      | Inr a \<Rightarrow> (case new_Albums text xs of Inl e \<Rightarrow> Inl e | Inr as \<Rightarrow> Inr (a # as)))"

text \<open>
  \<^verbatim>\<open>Artist.prototype.createQueue\<close>: a Queue of Albums, and \<^verbatim>\<open>queue.dispatch()\<close> on it, which
  calls \<^verbatim>\<open>Album.prototype.dispatch\<close> on each.
\<close>

definition Artist_createQueue :: "gateway \<Rightarrow> artist \<Rightarrow> obj \<Rightarrow> item promise" where
  "Artist_createQueue gw this resp =
     (case new_Albums (entry this) (case j_items resp of None \<Rightarrow> [] | Some xs \<Rightarrow> xs) of
        Inl e \<Rightarrow> reject e
      | Inr albums \<Rightarrow>
         (\<lambda>w. let (queue, w1) = new_ref w;
                  (refs, w2) = new_refs (length albums) w1;
                  (result, w3) = new_ref w2
              in and_then (Queue_resolveAll (Album_dispatch gw) albums)
                   (\<lambda>values. resolve (OQueue result values)) w3))"

definition Artist_dispatch :: "gateway \<Rightarrow> artist \<Rightarrow> item promise" where
  "Artist_dispatch gw this =
     and_then (searchForArtist gw this (entry this))
       (\<lambda>self. and_then (fetchAlbums gw self)
          (\<lambda>(self, resp). Artist_createQueue gw self resp))"

text \<open>
  \<^verbatim>\<open>entry.dispatch()\<close>, by the class of the entry; a Queue in a Queue dispatches its own
  entries, and \<^verbatim>\<open>undefined\<close> has no method. A Track resolves with itself, as assigned, or with
  \<^verbatim>\<open>undefined\<close>. \<open>dispatch_loop\<close> is the loop of \<^verbatim>\<open>resolveAll\<close> with
  \<^verbatim>\<open>entry.dispatch()\<close> as its function.
\<close>

fun item_dispatch :: "gateway \<Rightarrow> item \<Rightarrow> world \<Rightarrow> world \<times> (error + item)"
and dispatch_loop :: "gateway \<Rightarrow> item list \<Rightarrow> item list \<Rightarrow> world \<Rightarrow> world \<times> item list" where
  "item_dispatch gw (OTrack r t) w =
     and_then (Track_dispatch gw t)
       (\<lambda>v. resolve (case v of None \<Rightarrow> Undefined | Some self \<Rightarrow> OTrack r self)) w"
| "item_dispatch gw (OAlbum r a) w = Album_dispatch gw a w"
| "item_dispatch gw (OArtist r a) w = Artist_dispatch gw a w"
| "item_dispatch gw (OQueue r q) w =
     (case new_ref w of
        (result, w1) \<Rightarrow>
          (case dispatch_loop gw q [] w1 of
             (w2, values) \<Rightarrow> (w2, Inr (OQueue result values))))"
| "item_dispatch gw Undefined w = reject TypeError w"
| "dispatch_loop gw [] result w = (w, result)"
| "dispatch_loop gw (ent # queue) result w =
     (case item_dispatch gw ent w of
        (w', Inr v) \<Rightarrow> dispatch_loop gw queue (result @ [v]) w'
      | (w', Inl _) \<Rightarrow> dispatch_loop gw queue result w')"

definition Queue_dispatch :: "gateway \<Rightarrow> item list \<Rightarrow> item list promise" where
  "Queue_dispatch gw queue w =
     (case dispatch_loop gw queue [] w of (w', result) \<Rightarrow> (w', Inr result))"

section \<open>Playlist\<close>

datatype ordering = NoOrdering | Popularity | Lastfm

datatype grouping = NoGrouping | ByEntry | ByArtist | ByAlbum

text \<open>
  The fields of a Playlist; \<open>NoOrdering\<close> is the \<^verbatim>\<open>null\<close> and \<open>NoGrouping\<close> the
  \<^verbatim>\<open>true\<close> the constructor starts from. \<open>entries\<close> is the array of the Queue.
\<close>

record playlist =
  ordering :: ordering
  grouping :: grouping
  unique :: bool
  entries :: "item list"

text \<open>\<^verbatim>\<open>/^#(SORT|ORDER) BY LAST.?FM/i\<close>.\<close>

definition match_by_lastfm :: "string \<Rightarrow> bool" where
  "match_by_lastfm str =
     (match_prefix_i '' BY LAST'' str \<and>
      (let rest = drop 8 str in
       match_prefix_i ''FM'' rest \<or>
       (case rest of [] \<Rightarrow> False | c # cs \<Rightarrow> match_dot c \<and> match_prefix_i ''FM'' cs)))"

definition match_order_lastfm :: "string \<Rightarrow> bool" where
  "match_order_lastfm line =
     ((match_prefix_i ''#SORT'' line \<and> match_by_lastfm (drop 5 line)) \<or>
      (match_prefix_i ''#ORDER'' line \<and> match_by_lastfm (drop 6 line)))"

text \<open>\<^verbatim>\<open>this.entries.add(x)\<close> for an object \<open>x\<close> just created.\<close>

definition add_new :: "(nat \<Rightarrow> item) \<Rightarrow> playlist \<Rightarrow> playlist promise" where
  "add_new x this w =
     (case new_ref w of (r, w') \<Rightarrow> (w', Inr (this\<lparr>entries := entries this @ [x r]\<rparr>)))"

text \<open>The body of the constructor's loop, for one line.\<close>

definition parse_line :: "string \<Rightarrow> playlist \<Rightarrow> playlist promise" where
  "parse_line line this =
     (if match_prefix_i ''#ORDER BY POPULARITY'' line then
        resolve (this\<lparr>ordering := Popularity\<rparr>)
      else if match_order_lastfm line then resolve (this\<lparr>ordering := Lastfm\<rparr>)
      else if match_prefix_i ''#GROUP BY ENTRY'' line then
        resolve (this\<lparr>grouping := ByEntry\<rparr>)
      else if match_prefix_i ''#GROUP BY ARTIST'' line then
        resolve (this\<lparr>grouping := ByArtist\<rparr>)
      else if match_prefix_i ''#GROUP BY ALBUM'' line then
        resolve (this\<lparr>grouping := ByAlbum\<rparr>)
      else if match_prefix_i ''#UNIQUE'' line then resolve (this\<lparr>unique := True\<rparr>)
      else if match_prefix_i ''##'' line then resolve this
      else if match_prefix_i ''#ALBUM '' line then
        (case Album (drop 7 line) None of
           Inl e \<Rightarrow> reject e
         | Inr album \<Rightarrow> add_new (\<lambda>r. OAlbum r album) this)
      else if match_prefix_i ''#ARTIST '' line then
        add_new (\<lambda>r. OArtist r (Artist (drop 8 line))) this
      else if line \<noteq> [] then add_new (\<lambda>r. OTrack r (Track line None)) this
      else resolve this)"

fun parse_lines :: "string list \<Rightarrow> playlist \<Rightarrow> playlist promise" where
  "parse_lines [] this = resolve this"
| "parse_lines (line # lines) this =
     and_then (parse_line line this) (parse_lines lines)"

definition Playlist :: "string \<Rightarrow> playlist promise" where
  "Playlist str =
     (let this = \<lparr>ordering = NoOrdering, grouping = NoGrouping, unique = True, entries = []\<rparr>;
          str = trim str
      in if str \<noteq> [] then parse_lines (split_lines str) this else resolve this)"

definition Playlist_fetchTracks :: "gateway \<Rightarrow> playlist \<Rightarrow> playlist promise" where
  "Playlist_fetchTracks gw this =
     and_then (Queue_dispatch gw (entries this))
       (\<lambda>result. resolve (this\<lparr>entries := Queue_flatten result\<rparr>))"

definition Playlist_refreshTracks :: "gateway \<Rightarrow> playlist \<Rightarrow> playlist promise" where
  "Playlist_refreshTracks gw this =
     and_then (Queue_dispatch gw (entries this))
       (\<lambda>result. resolve (this\<lparr>entries := Queue_flatten result\<rparr>))"

text \<open>
  The Last.fm client is not part of the program: \<^verbatim>\<open>lastfm.getInfo(artist, title)\<close> is a
  parameter, \<open>None\<close> where its promise is rejected.
\<close>

type_synonym lastfm = "string \<Rightarrow> string \<Rightarrow> lastfm_info option"

text \<open>
  \<^verbatim>\<open>Track.prototype.fetchLastfm\<close> assigns the response to the Track, which stays in the
  playlist's Queue; an entry without the method, and a rejected request, leave the entry as
  it is, \<^verbatim>\<open>resolveAll\<close> dropping the rejection and \<^verbatim>\<open>Playlist.prototype.fetchLastfm\<close> the
  result.
\<close>

definition item_fetchLastfm :: "lastfm \<Rightarrow> item \<Rightarrow> item" where
  "item_fetchLastfm lf ent =
     (case ent of
        OTrack r t \<Rightarrow>
          (case lf (Track_artist t) (Track_title t) of
             None \<Rightarrow> ent
           | Some result \<Rightarrow> OTrack r (t\<lparr>lastfmResponse := Some result\<rparr>))
      | _ \<Rightarrow> ent)"

definition Playlist_fetchLastfm :: "lastfm \<Rightarrow> playlist \<Rightarrow> playlist" where
  "Playlist_fetchLastfm lf this = this\<lparr>entries := map (item_fetchLastfm lf) (entries this)\<rparr>"

definition Playlist_dedup :: "playlist \<Rightarrow> error + playlist" where
  "Playlist_dedup this =
     (if unique this then
        (case Queue_dedup (entries this) of
           Inl e \<Rightarrow> Inl e
         | Inr queue \<Rightarrow> Inr (this\<lparr>entries := queue\<rparr>))
      else Inr this)"

text \<open>
  \<^verbatim>\<open>(x < y) ? 1 : ((x > y) ? -1 : 0)\<close>; a comparison with \<^verbatim>\<open>undefined\<close> or \<^verbatim>\<open>NaN\<close>
  (\<open>None\<close>) is false.
\<close>

definition descending :: "int option \<Rightarrow> int option \<Rightarrow> int" where
  "descending x y =
     (case (x, y) of
        (Some a, Some b) \<Rightarrow> (if a < b then 1 else if a > b then - 1 else 0)
      | _ \<Rightarrow> 0)"

definition item_popularity :: "item \<Rightarrow> error + int option" where
  "item_popularity x = (case x of OTrack _ t \<Rightarrow> Inr (Track_popularity t) | _ \<Rightarrow> Inl TypeError)"

definition item_lastfm :: "item \<Rightarrow> error + int option" where
  "item_lastfm x = (case x of OTrack _ t \<Rightarrow> Track_lastfm t | _ \<Rightarrow> Inl TypeError)"

definition compare_by :: "(item \<Rightarrow> error + int option) \<Rightarrow> item \<Rightarrow> item \<Rightarrow> error + int" where
  "compare_by f a b =
     (case f a of
        Inl e \<Rightarrow> Inl e
      | Inr x \<Rightarrow> (case f b of Inl e \<Rightarrow> Inl e | Inr y \<Rightarrow> Inr (descending x y)))"

definition Playlist_orderByPopularity :: "sort_engine \<Rightarrow> playlist \<Rightarrow> error + playlist" where
  "Playlist_orderByPopularity engine this =
     (case Queue_sort engine (compare_by item_popularity) (entries this) of
        Inl e \<Rightarrow> Inl e
      | Inr queue \<Rightarrow> Inr (this\<lparr>entries := queue\<rparr>))"

definition Playlist_orderByLastfm :: "sort_engine \<Rightarrow> playlist \<Rightarrow> error + playlist" where
  "Playlist_orderByLastfm engine this =
     (case Queue_sort engine (compare_by item_lastfm) (entries this) of
        Inl e \<Rightarrow> Inl e
      | Inr queue \<Rightarrow> Inr (this\<lparr>entries := queue\<rparr>))"

definition Playlist_order ::
  "gateway \<Rightarrow> lastfm \<Rightarrow> sort_engine \<Rightarrow> playlist \<Rightarrow> playlist promise" where
  "Playlist_order gw lf engine this =
     (if ordering this = Popularity then
        and_then (Playlist_refreshTracks gw this)
          (\<lambda>self. lift (Playlist_orderByPopularity engine self))
      else if ordering this = Lastfm then
        lift (Playlist_orderByLastfm engine (Playlist_fetchLastfm lf this))
      else resolve this)"

text \<open>The key functions of the three groupings, on an entry of the Queue.\<close>

definition artist_key :: "item \<Rightarrow> error + string" where
  "artist_key x =
     (case x of OTrack _ t \<Rightarrow> Inr (toLowerCase (Track_artist t)) | _ \<Rightarrow> Inl TypeError)"

definition album_key :: "item \<Rightarrow> error + string" where
  "album_key x =
     (case x of OTrack _ t \<Rightarrow> Inr (toLowerCase (Track_album t)) | _ \<Rightarrow> Inl TypeError)"

definition entry_key :: "item \<Rightarrow> error + string" where
  "entry_key x =
     (case x of
        OTrack _ t \<Rightarrow> Inr (toLowerCase (entry t))
      | OAlbum _ a \<Rightarrow> Inr (toLowerCase (entry a))
      | OArtist _ a \<Rightarrow> Inr (toLowerCase (entry a))
      | _ \<Rightarrow> Inl TypeError)"

text \<open>
  The three methods take their receiver \<^verbatim>\<open>this\<close> as an argument: \<open>None\<close> is a call of the
  function without the playlist as receiver, where \<^verbatim>\<open>this.entries\<close> is \<^verbatim>\<open>undefined\<close>.
\<close>

definition group_with ::
  "(item \<Rightarrow> error + string) \<Rightarrow> playlist option \<Rightarrow> error + playlist" where
  "group_with fn receiver =
     (case receiver of
        None \<Rightarrow> Inl TypeError
      | Some this \<Rightarrow>
         (case Queue_group fn (entries this) of
            Inl e \<Rightarrow> Inl e
          | Inr queue \<Rightarrow> Inr (this\<lparr>entries := queue\<rparr>)))"

definition Playlist_groupByArtist :: "playlist option \<Rightarrow> error + playlist" where
  "Playlist_groupByArtist receiver = group_with artist_key receiver"

definition Playlist_groupByAlbum :: "playlist option \<Rightarrow> error + playlist" where
  "Playlist_groupByAlbum receiver = group_with album_key receiver"

definition Playlist_groupByEntry :: "playlist option \<Rightarrow> error + playlist" where
  "Playlist_groupByEntry receiver = group_with entry_key receiver"

text \<open>
  \<^verbatim>\<open>Playlist.prototype.group\<close>. The album branch is
  \<^verbatim>\<open>this.refreshTracks().then(this.groupByAlbum)\<close>: the promise calls the function it is
  given without a receiver.
\<close>

definition Playlist_group :: "gateway \<Rightarrow> playlist \<Rightarrow> playlist promise" where
  "Playlist_group gw this =
     (if grouping this = ByArtist then lift (Playlist_groupByArtist (Some this))
      else if grouping this = ByAlbum then
        and_then (Playlist_refreshTracks gw this) (\<lambda>_. lift (Playlist_groupByAlbum None))
      else if grouping this = ByEntry then lift (Playlist_groupByEntry (Some this))
      else resolve this)"

text \<open>
  \<^verbatim>\<open>Playlist.prototype.toString\<close>: for each entry \<^verbatim>\<open>track.toString()\<close> and
  \<^verbatim>\<open>track.lastfm()\<close> are evaluated for the console, then the URI is appended unless it is
  the empty string; a URI that is \<^verbatim>\<open>undefined\<close> is appended as that word.
\<close>

fun toString_loop :: "item list \<Rightarrow> string \<Rightarrow> error + string" where
  "toString_loop [] result = Inr result"
| "toString_loop (OTrack r t # queue) result =
     (case Track_lastfm t of
        Inl e \<Rightarrow> Inl e
      | Inr _ \<Rightarrow>
         (case Track_uri t of
            None \<Rightarrow> toString_loop queue (result @ ''undefined'' @ [CHR 0x0A])
          | Some u \<Rightarrow>
             (if u \<noteq> [] then toString_loop queue (result @ u @ [CHR 0x0A])
              else toString_loop queue result)))"
| "toString_loop (_ # queue) result = Inl TypeError"

definition Playlist_toString :: "playlist \<Rightarrow> error + string" where
  "Playlist_toString this =
     (case toString_loop (entries this) [] of Inl e \<Rightarrow> Inl e | Inr result \<Rightarrow> Inr (trim result))"

definition Playlist_dispatch ::
  "gateway \<Rightarrow> lastfm \<Rightarrow> sort_engine \<Rightarrow> playlist \<Rightarrow> string promise" where
  "Playlist_dispatch gw lf engine this =
     and_then (Playlist_fetchTracks gw this)
       (\<lambda>self. and_then (lift (Playlist_dedup self))
          (\<lambda>self. and_then (Playlist_order gw lf engine self)
             (\<lambda>self. and_then (Playlist_group gw self)
                (\<lambda>self. lift (Playlist_toString self)))))"

section \<open>The equivalence of the specification\<close>

text \<open>
  The equivalence that the specification gives for \<open>contains\<close> and \<open>dedup\<close>, in its words:
  two items are equivalent when they are the same object or when both are Tracks whose
  case-folded \<open>toString()\<close> values agree. \<open>first_occurrences\<close> keeps each item that is
  equivalent to no item before it.
\<close>

definition is_Track :: "item \<Rightarrow> bool" where
  "is_Track x = (case x of OTrack _ _ \<Rightarrow> True | _ \<Rightarrow> False)"

definition folded :: "item \<Rightarrow> string" where
  "folded x = (case item_toString x of Inl _ \<Rightarrow> [] | Inr str \<Rightarrow> toLowerCase str)"

definition equivalent :: "item \<Rightarrow> item \<Rightarrow> bool" where
  "equivalent a b = (same_object a b \<or> (is_Track a \<and> is_Track b \<and> folded a = folded b))"

fun first_occurrences :: "item list \<Rightarrow> item list \<Rightarrow> item list" where
  "first_occurrences seen [] = []"
| "first_occurrences seen (x # xs) =
     (if list_ex (\<lambda>y. equivalent y x) seen then first_occurrences (seen @ [x]) xs
      else x # first_occurrences (seen @ [x]) xs)"

section \<open>The rendered output in the words of the specification\<close>







section \<open>The refresh before ordering\<close>

text \<open>
  What holds of the queue when the pipeline comes to order it: an entry is \<open>resolved\<close> when
  it is \<^verbatim>\<open>undefined\<close> or a Track with a simple or a full response, which is what
  \<^verbatim>\<open>Track.prototype.dispatch\<close> resolves with. A Track is \<open>full\<close> when it has a full
  response, and \<open>promoted x y\<close> says that \<open>y\<close> is the Track \<open>x\<close>, as it was or with a full
  response assigned where it had none. \<open>refresh_urls\<close> lists the request
  \<^verbatim>\<open>/v1/tracks/<id>\<close> of each Track without a full response, in the order of the queue, and
  \<open>popularity_of\<close> is the number \<open>popularity()\<close> returns.
\<close>

definition resolved :: "item \<Rightarrow> bool" where
  "resolved x =
     (case x of
        OTrack _ t \<Rightarrow> response t \<noteq> None \<or> responseSimple t \<noteq> None
      | Undefined \<Rightarrow> True
      | _ \<Rightarrow> False)"

definition full :: "item \<Rightarrow> bool" where
  "full x = (case x of OTrack _ t \<Rightarrow> response t \<noteq> None | _ \<Rightarrow> False)"

definition promoted :: "item \<Rightarrow> item \<Rightarrow> bool" where
  "promoted x y =
     (case (x, y) of
        (OTrack r t, OTrack r' t') \<Rightarrow>
          r = r' \<and> (t' = t \<or> (response t = None \<and> t'\<lparr>response := None\<rparr> = t))
      | _ \<Rightarrow> False)"

definition track_url :: "track \<Rightarrow> string" where
  "track_url t = ''https://api.spotify.com/v1/tracks/'' @ encodeURIComponent_id (Track_id t)"

definition refresh_urls :: "item list \<Rightarrow> string list" where
  "refresh_urls queue =
     concat (map (\<lambda>x. case x of
                        OTrack _ t \<Rightarrow> if response t = None then [track_url t] else []
                      | _ \<Rightarrow> []) queue)"

definition popularity_of :: "item \<Rightarrow> int" where
  "popularity_of x = (case item_popularity x of Inr (Some n) \<Rightarrow> n | _ \<Rightarrow> 0)"

text \<open>
  What the refresh leaves of a queue of resolved entries, said of the queue itself, \<open>log\<close>
  being the requests made before: a Track with a full response stays as it is; a Track
  without one is requested and stays, with the body as its full response, when the service
  answers, and is dropped when the request is rejected; \<^verbatim>\<open>undefined\<close> is dropped.
\<close>

fun refreshed_queue :: "gateway \<Rightarrow> string list \<Rightarrow> item list \<Rightarrow> item list" where
  "refreshed_queue gw log [] = []"
| "refreshed_queue gw log (OTrack r t # queue) =
     (if response t \<noteq> None then OTrack r t # refreshed_queue gw log queue
      else
        (case gw log (track_url t) of
           None \<Rightarrow> refreshed_queue gw (log @ [track_url t]) queue
         | Some body \<Rightarrow>
             OTrack r (t\<lparr>response := Some body\<rparr>) #
             refreshed_queue gw (log @ [track_url t]) queue))"
| "refreshed_queue gw log (_ # queue) = refreshed_queue gw log queue"

text \<open>
  What ECMAScript 2019 requires of \<^verbatim>\<open>Array.prototype.sort\<close> where the comparison function is
  the program's \<^verbatim>\<open>(x < y) ? 1 : ((x > y) ? -1 : 0)\<close> on a number \<open>key\<close> of each element, which
  is a consistent comparison function: the result holds the same elements in descending
  order of the key, those of equal key in the order they had.
\<close>

definition stable_sort :: "sort_engine \<Rightarrow> bool" where
  "stable_sort engine =
     (\<forall>fn (key :: item \<Rightarrow> int) xs.
        (\<forall>x\<in>set xs. \<forall>y\<in>set xs.
           fn x y = Inr (if key x < key y then 1 else if key y < key x then - 1 else 0)) \<longrightarrow>
        (\<exists>ys. engine fn xs = Inr ys \<and> mset ys = mset xs \<and>
              sorted_wrt (\<lambda>a b. key b \<le> key a) ys \<and>
              (\<forall>k. filter (\<lambda>a. key a = k) ys = filter (\<lambda>a. key a = k) xs)))"

text \<open>
  The conditions under which the constructor's loop takes one of its directive branches, in
  the order of the source.
\<close>

definition recognized :: "string \<Rightarrow> bool" where
  "recognized line =
     (match_prefix_i ''#ORDER BY POPULARITY'' line \<or> match_order_lastfm line \<or>
      match_prefix_i ''#GROUP BY ENTRY'' line \<or> match_prefix_i ''#GROUP BY ARTIST'' line \<or>
      match_prefix_i ''#GROUP BY ALBUM'' line \<or> match_prefix_i ''#UNIQUE'' line \<or>
      match_prefix_i ''##'' line \<or> match_prefix_i ''#ALBUM '' line \<or>
      match_prefix_i ''#ARTIST '' line)"

section \<open>Samples\<close>

text \<open>An insertion sort, which is stable, as the sort of the runtime.\<close>

fun insert_by :: "('a \<Rightarrow> 'a \<Rightarrow> error + int) \<Rightarrow> 'a \<Rightarrow> 'a list \<Rightarrow> error + 'a list" where
  "insert_by fn x [] = Inr [x]"
| "insert_by fn x (y # ys) =
     (case fn x y of
        Inl e \<Rightarrow> Inl e
      | Inr c \<Rightarrow>
         (if c \<le> 0 then Inr (x # y # ys)
          else (case insert_by fn x ys of Inl e \<Rightarrow> Inl e | Inr zs \<Rightarrow> Inr (y # zs))))"

fun insertion_sort :: "('a \<Rightarrow> 'a \<Rightarrow> error + int) \<Rightarrow> 'a list \<Rightarrow> error + 'a list" where
  "insertion_sort fn [] = Inr []"
| "insertion_sort fn (x # xs) =
     (case insertion_sort fn xs of Inl e \<Rightarrow> Inl e | Inr ys \<Rightarrow> insert_by fn x ys)"

text \<open>
  A search result without hits, a track object as a search returns it, and a service that
  answers every search with one hit named after the query and every track request with the
  full track of that id, whose popularity is 70 for \<^verbatim>\<open>track2\<close> and 30 otherwise. The
  Last.fm client of the samples rejects every request.
\<close>

definition search_without_hits :: obj where
  "search_without_hits =
     Obj None None None None None None
       (Some (Obj None None None None None None None None (Some []))) None None"

definition simple_track :: obj where
  "simple_track =
     Obj (Some ''4u7EnebtmKWzUH433cf5Qv'') (Some ''spotify:track:4u7EnebtmKWzUH433cf5Qv'')
       (Some ''Bohemian Rhapsody'')
       (Some (ArtistArray [Obj None None (Some ''Queen'') None None None None None None]))
       None None None None None"

definition sample_gateway :: gateway where
  "sample_gateway log url =
     (if take 34 url = ''https://api.spotify.com/v1/tracks/'' then
        Some (Obj (Some (drop 34 url)) (Some (''spotify:track:'' @ drop 34 url))
                (Some (drop 34 url)) None None
                (Some (if drop 34 url = ''track2'' then 70 else 30)) None None None)
      else
        Some (Obj None None None None None None
                (Some (Obj None None None None None None None None
                   (Some [Obj (Some (drop 47 url)) (Some (''spotify:track:'' @ drop 47 url))
                            (Some (drop 47 url)) None None None None None None])))
                None None))"

definition no_lastfm :: lastfm where
  "no_lastfm artist title = None"

text \<open>The sample service with the track request for \<^verbatim>\<open>track1\<close> rejected.\<close>

definition failing_gateway :: gateway where
  "failing_gateway log url =
     (if url = ''https://api.spotify.com/v1/tracks/track1'' then None
      else sample_gateway log url)"


definition sample_album :: album where
  "sample_album = \<lparr>entry = ''Kid A'', albumResponse = None, searchResponse = None\<rparr>"



text \<open>
  The track objects of the sample service, simple and full, and a playlist ordered by
  popularity whose two Tracks have a simple response.
\<close>

definition simple_of :: "string \<Rightarrow> obj" where
  "simple_of i =
     Obj (Some i) (Some (''spotify:track:'' @ i)) (Some i) None None None None None None"

definition full_of :: "string \<Rightarrow> int \<Rightarrow> obj" where
  "full_of i p =
     Obj (Some i) (Some (''spotify:track:'' @ i)) (Some i) None None (Some p) None None None"

definition popularity_playlist :: playlist where
  "popularity_playlist =
     \<lparr>ordering = Popularity, grouping = NoGrouping, unique = True,
      entries = [OTrack 0 (Track ''track1'' (Some (simple_of ''track1''))),
                 OTrack 1 (Track ''track2'' (Some (simple_of ''track2'')))]\<rparr>"

section \<open>Track: equality and the accessors\<close>

text \<open>
  C7. For any two Tracks, \<open>equals\<close> holds exactly when the case-folded \<open>toString()\<close> values
  are equal; \<open>toString()\<close> is \<open>Title - Artist\<close> (the title alone without an artist) when a
  response gives a title, and the entry text otherwise; so two Tracks without any response
  and with the same entry text are equal.
\<close>

theorem Track_equals_iff_toString:
  "(Track_equals a b \<longleftrightarrow> toLowerCase (Track_toString a) = toLowerCase (Track_toString b)) \<and>
   Track_toString a =
     (if Track_title a = [] then entry a
      else if Track_artist a = [] then Track_title a
      else Track_title a @ '' - '' @ Track_artist a) \<and>
   (response a = None \<and> responseSimple a = None \<longrightarrow> Track_toString a = entry a) \<and>
   (response a = None \<and> responseSimple a = None \<and>
    response b = None \<and> responseSimple b = None \<and> entry a = entry b
      \<longrightarrow> Track_equals a b)"
proof -
  have ts: "\<And>t. Track_toString t =
     (if Track_title t = [] then entry t
      else if Track_artist t = [] then Track_title t
      else Track_title t @ '' - '' @ Track_artist t)"
    by (simp add: Track_toString_def Track_name_def Let_def)
  have un: "\<And>t. response t = None \<and> responseSimple t = None \<Longrightarrow> Track_title t = []"
    by (simp add: Track_title_def response_or_simple_def)
  show ?thesis
    using ts un by (simp add: Track_equals_def Let_def)
qed

theorem Track_equals_iff_toString_witness:
  "response (Track ''Karma Police'' None) = None \<and>
   responseSimple (Track ''Karma Police'' None) = None \<and>
   response (Track '' Karma Police '' None) = None \<and>
   responseSimple (Track '' Karma Police '' None) = None \<and>
   entry (Track ''Karma Police'' None) = entry (Track '' Karma Police '' None) \<and>
   Track_toString (Track ''Karma Police'' None) = entry (Track ''Karma Police'' None) \<and>
   Track_equals (Track ''Karma Police'' None) (Track '' Karma Police '' None)"
proof -
  have h: "response (Track ''Karma Police'' None) = None \<and>
   responseSimple (Track ''Karma Police'' None) = None \<and>
   response (Track '' Karma Police '' None) = None \<and>
   responseSimple (Track '' Karma Police '' None) = None \<and>
   entry (Track ''Karma Police'' None) = entry (Track '' Karma Police '' None)"
    by code_simp
  show ?thesis
    using h Track_equals_iff_toString
      [of "Track ''Karma Police'' None" "Track '' Karma Police '' None"]
    by blast
qed

text \<open>
  C9. On a Track without a full response whose simple response has a non-empty list of
  artists, \<open>artists()\<close> raises instead of returning the joined names: its condition reads
  the simple response and its body reads the missing full response. \<open>artist()\<close> and
  \<open>title()\<close> read the simple response on the same Track.
\<close>

theorem Track_artists_raises_on_simple:
  assumes "response this = None"
    and "responseSimple this = Some s"
    and "j_artists s = Some (ArtistArray (x # xs))"
  shows "Track_artists this = Inl TypeError \<and>
         Track_artist this = (if truthy_str (j_name x) then trim (the (j_name x)) else []) \<and>
         Track_title this = (if truthy_str (j_name s) then the (j_name s) else [])"
  using assms
  by (simp add: Track_artists_def Track_artist_def Track_title_def response_or_simple_def
      truthy_def artists_first_def first_def)

theorem Track_artists_raises_on_simple_witness:
  "response (Track ''bohemian'' (Some simple_track)) = None \<and>
   responseSimple (Track ''bohemian'' (Some simple_track)) = Some simple_track \<and>
   j_artists simple_track =
     Some (ArtistArray [Obj None None (Some ''Queen'') None None None None None None]) \<and>
   Track_artists (Track ''bohemian'' (Some simple_track)) = Inl TypeError \<and>
   Track_artist (Track ''bohemian'' (Some simple_track)) = ''Queen'' \<and>
   Track_title (Track ''bohemian'' (Some simple_track)) = ''Bohemian Rhapsody''"
proof -
  have h1: "response (Track ''bohemian'' (Some simple_track)) = None"
    by code_simp
  have h2: "responseSimple (Track ''bohemian'' (Some simple_track)) = Some simple_track"
    by code_simp
  have h3: "j_artists simple_track =
     Some (ArtistArray [Obj None None (Some ''Queen'') None None None None None None])"
    by code_simp
  have t: "trim ''Queen'' = ''Queen''" by code_simp
  show ?thesis
    using Track_artists_raises_on_simple [OF h1 h2 h3] h1 h2 h3 t
    by (simp add: truthy_str_def simple_track_def)
qed

text \<open>
  C10. A Track constructed with a response object whose popularity is 0 or missing holds
  that object as its simple response and has no full response, so \<open>popularity()\<close> is -1 and
  \<open>dispatch()\<close> requests \<^verbatim>\<open>/v1/tracks/<id>\<close>, whatever else the object holds; the Track
  resolves with the body of the answer as its full response.
\<close>

theorem Track_without_popularity_is_simple:
  assumes "j_popularity r = None \<or> j_popularity r = Some 0"
  shows "responseSimple (Track text (Some r)) = Some r \<and>
         response (Track text (Some r)) = None \<and>
         Track_popularity (Track text (Some r)) = Some (- 1) \<and>
         Track_dispatch gw (Track text (Some r)) w =
           (w\<lparr>requests := requests w @
                [''https://api.spotify.com/v1/tracks/'' @
                 encodeURIComponent_id (Track_id (Track text (Some r)))]\<rparr>,
            case gw (requests w)
                   (''https://api.spotify.com/v1/tracks/'' @
                    encodeURIComponent_id (Track_id (Track text (Some r)))) of
              None \<Rightarrow> Inl RequestFailed
            | Some body \<Rightarrow> Inr (Some ((Track text (Some r))\<lparr>response := Some body\<rparr>)))"
proof -
  have nf: "\<not> isFullResponse (Some r)"
    using assms by (auto simp: isFullResponse_def truthy_num_def)
  have t: "Track text (Some r) =
      \<lparr>entry = trim text, responseSimple = Some r, response = None, lastfmResponse = None\<rparr>"
    using nf by (simp add: Track_def)
  show ?thesis
    unfolding t
    by (simp add: Track_popularity_def Track_dispatch_def truthy_def fetchTrack_def
        and_then_def request_def resolve_def split: option.splits)
qed

theorem Track_without_popularity_is_simple_witness:
  "j_popularity (Obj (Some ''track1'') (Some ''spotify:track:track1'') (Some ''One'') None None
      (Some 0) None None None) = Some 0 \<and>
   Track_popularity (Track ''one'' (Some (Obj (Some ''track1'') (Some ''spotify:track:track1'')
      (Some ''One'') None None (Some 0) None None None))) = Some (- 1) \<and>
   fst (Track_dispatch sample_gateway (Track ''one'' (Some (Obj (Some ''track1'')
      (Some ''spotify:track:track1'') (Some ''One'') None None (Some 0) None None None)))
      \<lparr>requests = [], allocated = 0\<rparr>) =
     \<lparr>requests = [''https://api.spotify.com/v1/tracks/track1''], allocated = 0\<rparr>"
proof -
  have h: "j_popularity (Obj (Some ''track1'') (Some ''spotify:track:track1'') (Some ''One'')
      None None (Some 0) None None None) = None \<or>
    j_popularity (Obj (Some ''track1'') (Some ''spotify:track:track1'') (Some ''One'')
      None None (Some 0) None None None) = Some 0"
    by simp
  have u: "encodeURIComponent_id (Track_id (Track ''one'' (Some (Obj (Some ''track1'')
      (Some ''spotify:track:track1'') (Some ''One'') None None (Some 0) None None None)))) =
      ''track1''"
    by code_simp
  show ?thesis
    using Track_without_popularity_is_simple [OF h, of "''one''" sample_gateway
        "\<lparr>requests = [], allocated = 0\<rparr>"] u
    by simp
qed

section \<open>The constructor of the playlist\<close>

theorem unknown_directive_counterexample:
  "Playlist ''#FOO'' \<lparr>requests = [], allocated = 0\<rparr> =
     (\<lparr>requests = [], allocated = 1\<rparr>,
      Inr \<lparr>ordering = NoOrdering, grouping = NoGrouping, unique = True,
           entries = [OTrack 0 \<lparr>entry = ''#FOO'', responseSimple = None, response = None,
                                 lastfmResponse = None\<rparr>]\<rparr>)"
  by code_simp

text \<open>
  C3, as amended. A line that begins with \<^verbatim>\<open>#\<close> and matches none of the directives changes
  no option of the playlist and is appended to the queue as a Track whose entry text is the
  trimmed line.
\<close>

theorem unknown_directive_is_track:
  assumes "line \<noteq> []" and "hd line = CHR ''#''" and "\<not> recognized line"
  shows "parse_line line this w =
           (w\<lparr>allocated := Suc (allocated w)\<rparr>,
            Inr (this\<lparr>entries := entries this @ [OTrack (allocated w) (Track line None)]\<rparr>)) \<and>
         entry (Track line None) = trim line"
  using assms
  by (simp add: recognized_def parse_line_def add_new_def new_ref_def Track_def
      isFullResponse_def)

theorem unknown_directive_is_track_witness:
  "''#FOO'' \<noteq> [] \<and> hd ''#FOO'' = CHR ''#'' \<and> \<not> recognized ''#FOO'' \<and>
   parse_line ''#FOO''
     \<lparr>ordering = Popularity, grouping = ByArtist, unique = True, entries = []\<rparr>
     \<lparr>requests = [], allocated = 0\<rparr> =
     (\<lparr>requests = [], allocated = 1\<rparr>,
      Inr \<lparr>ordering = Popularity, grouping = ByArtist, unique = True,
           entries = [OTrack 0 (Track ''#FOO'' None)]\<rparr>)"
proof -
  have h1: "''#FOO'' \<noteq> []" by simp
  have h2: "hd ''#FOO'' = CHR ''#''" by simp
  have h3: "\<not> recognized ''#FOO''" by code_simp
  show ?thesis
    using unknown_directive_is_track [OF h1 h2 h3,
        of "\<lparr>ordering = Popularity, grouping = ByArtist, unique = True, entries = []\<rparr>"
           "\<lparr>requests = [], allocated = 0\<rparr>"] h3
    by simp
qed

section \<open>The pipeline on inputs where it raises\<close>

text \<open>
  C1. The claim is that \<open>Playlist.dispatch\<close> never raises and that a single track entry
  whose search has no hit gives the empty output. On the input \<^verbatim>\<open>nonexistent-xyz\<close> with a
  search result without items, \<open>searchForTrack\<close> resolves with \<^verbatim>\<open>undefined\<close>, which
  \<open>resolveAll\<close> adds to the queue, and \<open>Playlist.toString\<close> raises a TypeError on it.
\<close>

theorem dispatch_raises_without_hit:
  "and_then (Playlist (''nonexistent-xyz'' @ [CHR 0x0A]))
     (Playlist_dispatch (\<lambda>log url. Some search_without_hits) no_lastfm engine)
     \<lparr>requests = [], allocated = 0\<rparr> =
   (\<lparr>requests = [''https://api.spotify.com/v1/search?type=track&q=nonexistent-xyz''],
     allocated = 1\<rparr>,
    Inl TypeError)"
  by code_simp

lemma Playlist_refreshTracks_resolves:
  "\<exists>w' self. Playlist_refreshTracks gw this w = (w', Inr self)"
  by (simp add: Playlist_refreshTracks_def Queue_dispatch_def and_then_def resolve_def
      split: prod.splits)

text \<open>
  C2. The claim is that with the grouping \<open>album\<close> the entries are refreshed and then
  partitioned by album name. \<open>Playlist.group\<close> refreshes the entries and then raises a
  TypeError, for every playlist and every service: \<open>groupByAlbum\<close> is called without its
  receiver. So does the pipeline on \<^verbatim>\<open>#GROUP BY ALBUM\<close> followed by one track.
\<close>

theorem group_by_album_raises:
  "Playlist_group gw (this\<lparr>grouping := ByAlbum\<rparr>) w =
     (fst (Playlist_refreshTracks gw (this\<lparr>grouping := ByAlbum\<rparr>) w), Inl TypeError) \<and>
   and_then (Playlist (''#GROUP BY ALBUM'' @ [CHR 0x0A] @ ''track1''))
     (Playlist_dispatch sample_gateway no_lastfm engine) \<lparr>requests = [], allocated = 0\<rparr> =
   (\<lparr>requests = [''https://api.spotify.com/v1/search?type=track&q=track1'',
                  ''https://api.spotify.com/v1/tracks/track1''],
     allocated = 1\<rparr>,
    Inl TypeError)"
proof -
  obtain w' self where
    r: "Playlist_refreshTracks gw (this\<lparr>grouping := ByAlbum\<rparr>) w = (w', Inr self)"
    using Playlist_refreshTracks_resolves by blast
  have a: "Playlist_group gw (this\<lparr>grouping := ByAlbum\<rparr>) w =
     (fst (Playlist_refreshTracks gw (this\<lparr>grouping := ByAlbum\<rparr>) w), Inl TypeError)"
    using r
    by (simp add: Playlist_group_def and_then_def lift_def Playlist_groupByAlbum_def
        group_with_def)
  have b: "and_then (Playlist (''#GROUP BY ALBUM'' @ [CHR 0x0A] @ ''track1''))
     (Playlist_dispatch sample_gateway no_lastfm engine) \<lparr>requests = [], allocated = 0\<rparr> =
   (\<lparr>requests = [''https://api.spotify.com/v1/search?type=track&q=track1'',
                  ''https://api.spotify.com/v1/tracks/track1''],
     allocated = 1\<rparr>,
    Inl TypeError)"
    by code_simp
  show ?thesis using a b by simp
qed

text \<open>
  C5. The claim is that \<open>Queue.group\<close> concatenates the groups in the order in which their
  keys first appear, for every key function. Two Tracks with the entry texts \<^verbatim>\<open>b\<close> and
  \<^verbatim>\<open>1\<close>, grouped by entry, come out with the second before the first: the key \<^verbatim>\<open>1\<close> is
  an index of the array that holds the groups, which \<^verbatim>\<open>for-in\<close> visits before the key
  \<^verbatim>\<open>b\<close>. So does the pipeline on \<^verbatim>\<open>#GROUP BY ENTRY\<close> followed by these two entries.
\<close>

theorem group_puts_index_keys_first:
  "Queue_group entry_key [OTrack 0 (Track ''b'' None), OTrack 1 (Track ''1'' None)] =
     Inr [OTrack 1 (Track ''1'' None), OTrack 0 (Track ''b'' None)] \<and>
   and_then (Playlist (''#GROUP BY ENTRY'' @ [CHR 0x0A] @ ''b'' @ [CHR 0x0A] @ ''1''))
     (Playlist_dispatch sample_gateway no_lastfm engine) \<lparr>requests = [], allocated = 0\<rparr> =
   (\<lparr>requests = [''https://api.spotify.com/v1/search?type=track&q=b'',
                  ''https://api.spotify.com/v1/search?type=track&q=1''],
     allocated = 2\<rparr>,
    Inr (''spotify:track:1'' @ [CHR 0x0A] @ ''spotify:track:b''))"
proof -
  have a: "Queue_group entry_key [OTrack 0 (Track ''b'' None), OTrack 1 (Track ''1'' None)] =
     Inr [OTrack 1 (Track ''1'' None), OTrack 0 (Track ''b'' None)]"
    by code_simp
  have b: "and_then (Playlist (''#GROUP BY ENTRY'' @ [CHR 0x0A] @ ''b'' @ [CHR 0x0A] @ ''1''))
     (Playlist_dispatch sample_gateway no_lastfm engine) \<lparr>requests = [], allocated = 0\<rparr> =
   (\<lparr>requests = [''https://api.spotify.com/v1/search?type=track&q=b'',
                  ''https://api.spotify.com/v1/search?type=track&q=1''],
     allocated = 2\<rparr>,
    Inr (''spotify:track:1'' @ [CHR 0x0A] @ ''spotify:track:b''))"
    by code_simp
  show ?thesis using a b by simp
qed

section \<open>dedup\<close>

lemma item_matches_objects:
  "ent \<noteq> Undefined \<Longrightarrow> obj \<noteq> Undefined \<Longrightarrow>
   item_matches ent obj = Inr ((is_Track ent \<and> folded ent = folded obj) \<or> same_object ent obj)"
  by (cases ent; cases obj)
     (auto simp: item_matches_def item_toString_def is_Track_def folded_def)

lemma Queue_contains_objects:
  "Undefined \<notin> set queue \<Longrightarrow> obj \<noteq> Undefined \<Longrightarrow>
   Queue_contains queue obj =
     Inr (\<exists>ent\<in>set queue. (is_Track ent \<and> folded ent = folded obj) \<or> same_object ent obj)"
proof (induction queue)
  case Nil
  then show ?case by simp
next
  case (Cons ent queue)
  then show ?case
    by (auto simp: item_matches_objects split: bool.splits)
qed

lemma dedup_loop_append:
  "dedup_loop (xs @ ys) acc =
     (case dedup_loop xs acc of Inl e \<Rightarrow> Inl e | Inr m \<Rightarrow> dedup_loop ys m)"
  by (induction xs arbitrary: acc) (auto split: sum.splits bool.splits)

lemma dedup_loop_fixed:
  "dedup_loop acc [] = Inr acc \<Longrightarrow> dedup_loop queue acc = Inr r \<Longrightarrow> dedup_loop r [] = Inr r"
proof (induction queue arbitrary: acc)
  case Nil
  then show ?case by simp
next
  case (Cons x queue)
  show ?case
  proof (cases "Queue_contains acc x")
    case (Inl e)
    with Cons.prems show ?thesis by simp
  next
    case (Inr b)
    show ?thesis
    proof (cases b)
      case True
      with Inr Cons.prems Cons.IH [of acc] show ?thesis by simp
    next
      case False
      have "dedup_loop (acc @ [x]) [] = Inr (acc @ [x])"
        using Cons.prems(1) Inr False by (simp add: dedup_loop_append)
      moreover have "dedup_loop queue (acc @ [x]) = Inr r"
        using Cons.prems(2) Inr False by simp
      ultimately show ?thesis by (rule Cons.IH)
    qed
  qed
qed

lemma Queue_dedup_idempotent:
  "Queue_dedup queue = Inr r \<Longrightarrow> Queue_dedup r = Inr r"
  unfolding Queue_dedup_def using dedup_loop_fixed [of "[]" queue r] by simp

lemma dedup_loop_first_occurrences:
  assumes "Undefined \<notin> set seen \<union> set queue"
    and "\<forall>x\<in>set seen \<union> set queue. \<forall>y\<in>set seen \<union> set queue. same_object x y \<longrightarrow> x = y"
    and "\<forall>x\<in>set seen \<union> set queue. \<forall>y\<in>set seen \<union> set queue.
           is_Track x \<and> \<not> is_Track y \<longrightarrow> folded x \<noteq> folded y"
    and "set acc \<subseteq> set seen"
    and "\<forall>y\<in>set seen. \<exists>e\<in>set acc. equivalent e y"
  shows "dedup_loop queue acc = Inr (acc @ first_occurrences seen queue)"
  using assms
proof (induction queue arbitrary: acc seen)
  case Nil
  then show ?case by simp
next
  case (Cons x queue)
  let ?U = "set seen \<union> set (x # queue)"
  have xU: "x \<in> ?U" by simp
  have accU: "set acc \<subseteq> ?U" using Cons.prems(4) by auto
  have xdef: "x \<noteq> Undefined" using Cons.prems(1) by auto
  have accdef: "Undefined \<notin> set acc" using Cons.prems(1,4) by auto
  have eqv: "\<And>a b. a \<in> ?U \<Longrightarrow> b \<in> ?U \<Longrightarrow>
      equivalent a b = ((is_Track a \<and> folded a = folded b) \<or> same_object a b)"
  proof -
    fix a b assume a: "a \<in> ?U" and b: "b \<in> ?U"
    show "equivalent a b = ((is_Track a \<and> folded a = folded b) \<or> same_object a b)"
      using Cons.prems(3) a b unfolding equivalent_def by blast
  qed
  have trans: "\<And>a b c. a \<in> ?U \<Longrightarrow> b \<in> ?U \<Longrightarrow> c \<in> ?U \<Longrightarrow>
      equivalent a b \<Longrightarrow> equivalent b c \<Longrightarrow> equivalent a c"
  proof -
    fix a b c assume a: "a \<in> ?U" and b: "b \<in> ?U" and c: "c \<in> ?U"
      and ab: "equivalent a b" and bc: "equivalent b c"
    show "equivalent a c"
    proof (cases "same_object a b")
      case True
      then have "a = b" using Cons.prems(2) a b by blast
      with bc show ?thesis by simp
    next
      case nab: False
      show ?thesis
      proof (cases "same_object b c")
        case True
        then have "b = c" using Cons.prems(2) b c by blast
        with ab show ?thesis by simp
      next
        case False
        with nab ab bc show ?thesis unfolding equivalent_def by auto
      qed
    qed
  qed
  have cont: "Queue_contains acc x = Inr (\<exists>e\<in>set acc. equivalent e x)"
  proof -
    have "\<And>e. e \<in> set acc \<Longrightarrow>
        ((is_Track e \<and> folded e = folded x) \<or> same_object e x) = equivalent e x"
      using eqv accU xU by blast
    then show ?thesis
      using Queue_contains_objects [OF accdef xdef] by simp
  qed
  have same: "(\<exists>e\<in>set acc. equivalent e x) = list_ex (\<lambda>y. equivalent y x) seen"
  proof
    assume "\<exists>e\<in>set acc. equivalent e x"
    then show "list_ex (\<lambda>y. equivalent y x) seen"
      using Cons.prems(4) by (auto simp: list_ex_iff)
  next
    assume "list_ex (\<lambda>y. equivalent y x) seen"
    then obtain y where y: "y \<in> set seen" "equivalent y x" by (auto simp: list_ex_iff)
    then obtain e where e: "e \<in> set acc" "equivalent e y" using Cons.prems(5) by blast
    have "equivalent e x"
      using trans [of e y x] e y accU xU by auto
    with e show "\<exists>e\<in>set acc. equivalent e x" by blast
  qed
  have U': "set (seen @ [x]) \<union> set queue = ?U" by auto
  show ?case
  proof (cases "list_ex (\<lambda>y. equivalent y x) seen")
    case True
    have rep: "\<forall>y\<in>set (seen @ [x]). \<exists>e\<in>set acc. equivalent e y"
      using Cons.prems(5) True same by auto
    have "dedup_loop queue acc = Inr (acc @ first_occurrences (seen @ [x]) queue)"
      using Cons.IH [of "seen @ [x]" acc] Cons.prems(1,2,3,4) rep unfolding U' by auto
    then show ?thesis using True cont same by simp
  next
    case False
    have refl: "equivalent x x" by (simp add: equivalent_def same_object_def)
    have rep: "\<forall>y\<in>set (seen @ [x]). \<exists>e\<in>set (acc @ [x]). equivalent e y"
      using Cons.prems(5) refl by auto
    have sub: "set (acc @ [x]) \<subseteq> set (seen @ [x])" using Cons.prems(4) by auto
    have "dedup_loop queue (acc @ [x]) =
        Inr ((acc @ [x]) @ first_occurrences (seen @ [x]) queue)"
      using Cons.IH [of "seen @ [x]" "acc @ [x]"] Cons.prems(1,2,3) rep sub unfolding U'
      by auto
    then show ?thesis using False cont same by simp
  qed
qed

theorem dedup_counterexample:
  "Queue_dedup [OTrack 0 (Track ''[object Object]'' None), OAlbum 1 sample_album] =
     Inr [OTrack 0 (Track ''[object Object]'' None)] \<and>
   \<not> equivalent (OTrack 0 (Track ''[object Object]'' None)) (OAlbum 1 sample_album)"
  by code_simp

text \<open>
  C4, as amended. \<open>Queue.dedup\<close> is idempotent wherever it returns. On a queue of objects in
  which no Track has the case-folded \<open>toString()\<close> of an item that is not a Track, it returns
  and keeps exactly the first occurrence of each equivalence class, in the order of the queue,
  where two items are equivalent iff they are the same object or both are Tracks whose
  case-folded \<open>toString()\<close> values agree.
\<close>

theorem dedup_keeps_first_occurrences:
  assumes "Undefined \<notin> set queue"
    and "\<forall>x\<in>set queue. \<forall>y\<in>set queue. same_object x y \<longrightarrow> x = y"
    and "\<forall>x\<in>set queue. \<forall>y\<in>set queue. is_Track x \<and> \<not> is_Track y \<longrightarrow> folded x \<noteq> folded y"
  shows "(Queue_dedup any = Inr r \<longrightarrow> Queue_dedup r = Inr r) \<and>
         Queue_dedup queue = Inr (first_occurrences [] queue) \<and>
         Queue_dedup (first_occurrences [] queue) = Inr (first_occurrences [] queue)"
proof -
  have a: "Queue_dedup queue = Inr (first_occurrences [] queue)"
    unfolding Queue_dedup_def
    using dedup_loop_first_occurrences [of "[]" queue "[]"] assms by simp
  show ?thesis
    using a Queue_dedup_idempotent [OF a] Queue_dedup_idempotent [of any r] by blast
qed

theorem dedup_keeps_first_occurrences_witness:
  "Queue_dedup [OTrack 0 (Track ''Karma Police'' None), OAlbum 1 sample_album,
                OTrack 2 (Track ''karma police'' None), OAlbum 1 sample_album,
                OTrack 3 (Track ''Idioteque'' None)] =
     Inr [OTrack 0 (Track ''Karma Police'' None), OAlbum 1 sample_album,
          OTrack 3 (Track ''Idioteque'' None)]"
proof -
  let ?q = "[OTrack 0 (Track ''Karma Police'' None), OAlbum 1 sample_album,
             OTrack 2 (Track ''karma police'' None), OAlbum 1 sample_album,
             OTrack 3 (Track ''Idioteque'' None)]"
  have h1: "Undefined \<notin> set ?q" by simp
  have h2: "\<forall>x\<in>set ?q. \<forall>y\<in>set ?q. same_object x y \<longrightarrow> x = y"
    by code_simp
  have h3: "\<forall>x\<in>set ?q. \<forall>y\<in>set ?q. is_Track x \<and> \<not> is_Track y \<longrightarrow> folded x \<noteq> folded y"
    by code_simp
  have f: "first_occurrences [] ?q =
     [OTrack 0 (Track ''Karma Police'' None), OAlbum 1 sample_album,
      OTrack 3 (Track ''Idioteque'' None)]"
    by code_simp
  show ?thesis
    using dedup_keeps_first_occurrences [OF h1 h2 h3] f by simp
qed

section \<open>The rendered output\<close>



















section \<open>What the expansion leaves in the queue\<close>

text \<open>
  \<^verbatim>\<open>fetchTracks\<close> always resolves, and whatever the entries and the remote are, the queue it
  leaves holds only \<^verbatim>\<open>undefined\<close> and Tracks with a simple or a full response: a Track
  resolves with itself once a response is assigned, or with \<^verbatim>\<open>undefined\<close>; an Album with a
  Queue of Tracks made from the items of its response; an Artist with a Queue of such Queues;
  and the rejections are dropped. \<open>dedup\<close> only removes entries. So the queue the pipeline
  hands to \<open>order\<close> is one of resolved entries.
\<close>

lemma flatten_append: "Queue_flatten (xs @ ys) = Queue_flatten xs @ Queue_flatten ys"
  by (induction xs rule: Queue_flatten.induct) simp_all

lemma flatten_resolved_iff:
  "(\<forall>z\<in>set (Queue_flatten xs). resolved z) =
   (\<forall>x\<in>set xs. \<forall>z\<in>set (Queue_flatten [x]). resolved z)"
proof (induction xs)
  case Nil
  then show ?case by simp
next
  case (Cons x xs)
  have "Queue_flatten (x # xs) = Queue_flatten [x] @ Queue_flatten xs"
    using flatten_append [of "[x]" xs] by simp
  then show ?case using Cons by auto
qed

lemma Track_resolved:
  "response (Track text (Some x)) \<noteq> None \<or> responseSimple (Track text (Some x)) \<noteq> None"
  by (simp add: Track_def)

lemma Track_dispatch_resolved:
  assumes "Track_dispatch gw t w = (w', Inr (Some self))"
  shows "response self \<noteq> None \<or> responseSimple self \<noteq> None"
proof (cases "truthy (response t)")
  case True
  then show ?thesis using assms by (auto simp: Track_dispatch_def resolve_def truthy_def)
next
  case False
  have fetch: "\<And>v. and_then (fetchTrack gw t) (\<lambda>t. resolve (Some t)) w = (w', Inr (Some v))
      \<Longrightarrow> response v \<noteq> None"
    by (auto simp: fetchTrack_def and_then_def request_def resolve_def
        split: option.splits prod.splits sum.splits)
  have search: "\<And>v. searchForTrack gw t (entry t) w = (w', Inr (Some v))
      \<Longrightarrow> responseSimple v \<noteq> None"
    by (auto simp: searchForTrack_def and_then_def request_def resolve_def reject_def
        split: option.splits prod.splits sum.splits if_splits)
  show ?thesis
    using assms False fetch search
    by (auto simp: Track_dispatch_def split: if_splits)
qed

lemma Album_createQueue_resolved:
  assumes "Album_createQueue a resp w = (w', Inr y)"
  shows "\<forall>z\<in>set (Queue_flatten [y]). resolved z"
proof -
  have tr: "\<And>r x. Queue_flatten [OTrack r (Track (entry a) (Some x))] =
      [OTrack r (Track (entry a) (Some x))]"
    by simp
  have all: "\<And>ps. \<forall>z\<in>set (Queue_flatten
      (map (\<lambda>(r, x). OTrack r (Track (entry a) (Some x))) ps)). resolved z"
  proof -
    fix ps :: "(nat \<times> obj) list"
    show "\<forall>z\<in>set (Queue_flatten
        (map (\<lambda>(r, x). OTrack r (Track (entry a) (Some x))) ps)). resolved z"
      using Track_resolved by (induction ps) (auto simp: resolved_def)
  qed
  show ?thesis
    using assms all
    by (auto simp: Album_createQueue_def reject_def new_ref_def new_refs_def Let_def
        split: option.splits)
qed

lemma Album_dispatch_resolved:
  assumes "Album_dispatch gw a w = (w', Inr y)"
  shows "\<forall>z\<in>set (Queue_flatten [y]). resolved z"
proof -
  have step: "\<And>b v. and_then (fetchAlbum gw b) (\<lambda>(self, resp). Album_createQueue self resp) v =
      (w', Inr y) \<Longrightarrow> \<forall>z\<in>set (Queue_flatten [y]). resolved z"
  proof -
    fix b v
    assume "and_then (fetchAlbum gw b) (\<lambda>(self, resp). Album_createQueue self resp) v =
      (w', Inr y)"
    then obtain v' self resp where "Album_createQueue self resp v' = (w', Inr y)"
      by (auto simp: and_then_def split: prod.splits sum.splits)
    then show "\<forall>z\<in>set (Queue_flatten [y]). resolved z"
      by (rule Album_createQueue_resolved)
  qed
  show ?thesis
  proof (cases "truthy (searchResponse a)")
    case True
    then show ?thesis using assms step by (simp add: Album_dispatch_def)
  next
    case False
    show ?thesis
    proof (cases "truthy (albumResponse a)")
      case True
      then show ?thesis
        using assms False
        by (auto simp: Album_dispatch_def and_then_def reject_def split: prod.splits sum.splits)
    next
      case nal: False
      from assms False nal obtain b v where
        "and_then (fetchAlbum gw b) (\<lambda>(self, resp). Album_createQueue self resp) v = (w', Inr y)"
        by (auto simp: Album_dispatch_def and_then_def [of "searchForAlbum gw a (entry a)"]
            split: prod.splits sum.splits)
      then show ?thesis by (rule step)
    qed
  qed
qed

lemma resolveAll_loop_invariant:
  assumes "\<And>x v v' y. fn x v = (v', Inr y) \<Longrightarrow> Q y"
    and "\<forall>y\<in>set acc. Q y"
  shows "\<forall>y\<in>set (snd (resolveAll_loop fn xs acc w)). Q y"
  using assms(2)
proof (induction xs arbitrary: acc w)
  case Nil
  then show ?case by simp
next
  case (Cons x xs)
  obtain v' res where f: "fn x w = (v', res)" by (cases "fn x w")
  show ?case
  proof (cases res)
    case (Inl e)
    then show ?thesis using f Cons by simp
  next
    case (Inr y)
    then have "Q y" using f assms(1) by blast
    then have "\<forall>z\<in>set (acc @ [y]). Q z" using Cons.prems by simp
    from Cons.IH [OF this] show ?thesis using f Inr by simp
  qed
qed

lemma Artist_createQueue_resolved:
  assumes "Artist_createQueue gw a resp w = (w', Inr y)"
  shows "\<forall>z\<in>set (Queue_flatten [y]). resolved z"
proof -
  have loop: "\<And>albums v. \<forall>y\<in>set (snd (resolveAll_loop (Album_dispatch gw) albums [] v)).
      \<forall>z\<in>set (Queue_flatten [y]). resolved z"
    by (rule resolveAll_loop_invariant) (auto dest: Album_dispatch_resolved)
  have all: "\<And>albums v. \<forall>z\<in>set (Queue_flatten
      (snd (resolveAll_loop (Album_dispatch gw) albums [] v))). resolved z"
    using loop flatten_resolved_iff by blast
  have "\<exists>r albums v. y = OQueue r (snd (resolveAll_loop (Album_dispatch gw) albums [] v))"
    using assms
    by (auto simp: Artist_createQueue_def reject_def resolve_def and_then_def
        Queue_resolveAll_def Let_def split: sum.splits prod.splits)
      (metis snd_conv)
  then show ?thesis using all by auto
qed

lemma Artist_dispatch_resolved:
  assumes "Artist_dispatch gw a w = (w', Inr y)"
  shows "\<forall>z\<in>set (Queue_flatten [y]). resolved z"
proof -
  from assms obtain self resp v where "Artist_createQueue gw self resp v = (w', Inr y)"
    by (auto simp: Artist_dispatch_def and_then_def split: prod.splits sum.splits)
  then show ?thesis by (rule Artist_createQueue_resolved)
qed

lemma dispatch_resolved:
  "\<forall>w' y. item_dispatch gw x w = (w', Inr y) \<longrightarrow> (\<forall>z\<in>set (Queue_flatten [y]). resolved z)"
  "(\<forall>z\<in>set (Queue_flatten acc). resolved z) \<longrightarrow>
   (\<forall>z\<in>set (Queue_flatten (snd (dispatch_loop gw q acc w))). resolved z)"
proof (induction gw x w and gw q acc w rule: item_dispatch_dispatch_loop.induct)
  case (1 gw r t w)
  show ?case
  proof (intro allI impI)
    fix w' y
    assume a: "item_dispatch gw (OTrack r t) w = (w', Inr y)"
    then obtain v where v: "Track_dispatch gw t w = (w', Inr v)"
      "y = (case v of None \<Rightarrow> Undefined | Some self \<Rightarrow> OTrack r self)"
      by (auto simp: and_then_def resolve_def split: prod.splits sum.splits)
    show "\<forall>z\<in>set (Queue_flatten [y]). resolved z"
    proof (cases v)
      case None
      then show ?thesis using v by (simp add: resolved_def)
    next
      case (Some self)
      then show ?thesis using v Track_dispatch_resolved [of gw t w w' self]
        by (simp add: resolved_def)
    qed
  qed
next
  case (2 gw r a w)
  then show ?case using Album_dispatch_resolved by simp
next
  case (3 gw r a w)
  then show ?case using Artist_dispatch_resolved by simp
next
  case (4 gw r q w)
  show ?case
  proof (intro allI impI)
    fix w' y
    assume a: "item_dispatch gw (OQueue r q) w = (w', Inr y)"
    obtain result w1 where n: "new_ref w = (result, w1)" by (cases "new_ref w")
    have "\<forall>z\<in>set (Queue_flatten (snd (dispatch_loop gw q [] w1))). resolved z"
      using 4 [OF n [symmetric]] by simp
    moreover have "y = OQueue result (snd (dispatch_loop gw q [] w1))"
      using a n by (auto split: prod.splits)
    ultimately show "\<forall>z\<in>set (Queue_flatten [y]). resolved z" by simp
  qed
next
  case (5 gw w)
  then show ?case by (simp add: reject_def)
next
  case (6 gw result w)
  then show ?case by simp
next
  case (7 gw ent queue result w)
  obtain w' res where d: "item_dispatch gw ent w = (w', res)" by (cases "item_dispatch gw ent w")
  show ?case
  proof (cases res)
    case (Inl e)
    then show ?thesis using 7(2) [OF d [symmetric] Inl] d by simp
  next
    case (Inr v)
    have v: "\<forall>z\<in>set (Queue_flatten [v]). resolved z" using 7(1) d Inr by blast
    show ?thesis
    proof
      assume "\<forall>z\<in>set (Queue_flatten result). resolved z"
      then have "\<forall>z\<in>set (Queue_flatten (result @ [v])). resolved z"
        using v by (auto simp: flatten_append)
      then show "\<forall>z\<in>set (Queue_flatten (snd (dispatch_loop gw (ent # queue) result w))).
          resolved z"
        using 7(3) [OF d [symmetric] Inr] d Inr by simp
    qed
  qed
qed

lemma Playlist_fetchTracks_resolved:
  "\<exists>w' queue. Playlist_fetchTracks gw this w = (w', Inr (this\<lparr>entries := queue\<rparr>)) \<and>
     (\<forall>x\<in>set queue. resolved x)"
proof -
  obtain w' result where d: "dispatch_loop gw (entries this) [] w = (w', result)"
    by (cases "dispatch_loop gw (entries this) [] w")
  have "\<forall>z\<in>set (Queue_flatten result). resolved z"
    using dispatch_resolved(2) [of "[]" gw "entries this" w] d by simp
  moreover have "Playlist_fetchTracks gw this w =
      (w', Inr (this\<lparr>entries := Queue_flatten result\<rparr>))"
    using d by (simp add: Playlist_fetchTracks_def Queue_dispatch_def and_then_def resolve_def)
  ultimately show ?thesis by blast
qed

lemma dedup_loop_subset:
  "dedup_loop queue acc = Inr r \<Longrightarrow> set r \<subseteq> set acc \<union> set queue"
proof (induction queue arbitrary: acc)
  case Nil
  then show ?case by simp
next
  case (Cons x xs)
  show ?case
  proof (cases "Queue_contains acc x")
    case (Inl e)
    then show ?thesis using Cons.prems by simp
  next
    case (Inr b)
    then show ?thesis using Cons.prems Cons.IH [of acc] Cons.IH [of "acc @ [x]"]
      by (cases b) auto
  qed
qed

lemma Playlist_dedup_resolved:
  assumes "Playlist_dedup this = Inr self" and "\<forall>x\<in>set (entries this). resolved x"
  shows "\<forall>x\<in>set (entries self). resolved x"
proof (cases "unique this")
  case False
  then show ?thesis using assms by (simp add: Playlist_dedup_def)
next
  case True
  then obtain queue where q: "Queue_dedup (entries this) = Inr queue"
    "self = this\<lparr>entries := queue\<rparr>"
    using assms(1) by (auto simp: Playlist_dedup_def split: sum.splits)
  then have "set queue \<subseteq> set (entries this)"
    using dedup_loop_subset [of "entries this" "[]" queue] by (simp add: Queue_dedup_def)
  then show ?thesis using q(2) assms(2) by auto
qed

section \<open>Ordering by popularity\<close>

lemma item_dispatch_full:
  "response t = Some b \<Longrightarrow> item_dispatch gw (OTrack r t) w = (w, Inr (OTrack r t))"
  by (simp add: Track_dispatch_def truthy_def and_then_def resolve_def)

lemma item_dispatch_simple:
  "response t = None \<Longrightarrow> responseSimple t = Some s \<Longrightarrow>
   item_dispatch gw (OTrack r t) w =
     (w\<lparr>requests := requests w @ [track_url t]\<rparr>,
      case gw (requests w) (track_url t) of
        None \<Rightarrow> Inl RequestFailed
      | Some body \<Rightarrow> Inr (OTrack r (t\<lparr>response := Some body\<rparr>)))"
  by (simp add: Track_dispatch_def truthy_def and_then_def resolve_def fetchTrack_def
      request_def track_url_def split: option.splits)

lemma flatten_full: "\<forall>x\<in>set queue. full x \<Longrightarrow> Queue_flatten queue = queue"
proof (induction queue)
  case Nil
  then show ?case by simp
next
  case (Cons x queue)
  then show ?case by (cases x) (simp_all add: full_def)
qed

lemma insert_by_stable:
  fixes key :: "'a \<Rightarrow> int"
  assumes "\<forall>y\<in>set ys. fn x y = Inr (if key x < key y then 1 else if key y < key x then - 1 else 0)"
    and "sorted_wrt (\<lambda>a b. key b \<le> key a) ys"
  shows "\<exists>zs. insert_by fn x ys = Inr zs \<and> mset zs = add_mset x (mset ys) \<and>
           sorted_wrt (\<lambda>a b. key b \<le> key a) zs \<and>
           (\<forall>k. filter (\<lambda>a. key a = k) zs = filter (\<lambda>a. key a = k) (x # ys))"
  using assms
proof (induction ys)
  case Nil
  then show ?case by simp
next
  case (Cons y ys)
  show ?case
  proof (cases "key x < key y")
    case True
    from Cons.prems have "\<forall>y\<in>set ys. fn x y =
        Inr (if key x < key y then 1 else if key y < key x then - 1 else 0)"
      and "sorted_wrt (\<lambda>a b. key b \<le> key a) ys"
      by simp_all
    from Cons.IH [OF this] obtain zs where zs: "insert_by fn x ys = Inr zs"
      "mset zs = add_mset x (mset ys)" "sorted_wrt (\<lambda>a b. key b \<le> key a) zs"
      "\<forall>k. filter (\<lambda>a. key a = k) zs = filter (\<lambda>a. key a = k) (x # ys)"
      by blast
    have c: "fn x y = Inr 1" using Cons.prems(1) True by simp
    have i: "insert_by fn x (y # ys) = Inr (y # zs)" using c zs(1) by simp
    have "set zs = insert x (set ys)" using zs(2) by (metis set_mset_add_mset_insert set_mset_mset)
    then have s: "sorted_wrt (\<lambda>a b. key b \<le> key a) (y # zs)"
      using zs(3) Cons.prems(2) True by auto
    have f: "\<forall>k. filter (\<lambda>a. key a = k) (y # zs) = filter (\<lambda>a. key a = k) (x # y # ys)"
      using zs(4) True by auto
    show ?thesis using i zs(2) s f by simp
  next
    case False
    have c: "\<exists>c. fn x y = Inr c \<and> c \<le> 0" using Cons.prems(1) False by simp
    then have i: "insert_by fn x (y # ys) = Inr (x # y # ys)" by auto
    have s: "sorted_wrt (\<lambda>a b. key b \<le> key a) (x # y # ys)"
      using Cons.prems(2) False by auto
    show ?thesis using i s by simp
  qed
qed

lemma insertion_sort_stable:
  fixes key :: "'a \<Rightarrow> int"
  assumes "\<forall>x\<in>set xs. \<forall>y\<in>set xs.
             fn x y = Inr (if key x < key y then 1 else if key y < key x then - 1 else 0)"
  shows "\<exists>ys. insertion_sort fn xs = Inr ys \<and> mset ys = mset xs \<and>
           sorted_wrt (\<lambda>a b. key b \<le> key a) ys \<and>
           (\<forall>k. filter (\<lambda>a. key a = k) ys = filter (\<lambda>a. key a = k) xs)"
  using assms
proof (induction xs)
  case Nil
  then show ?case by simp
next
  case (Cons x xs)
  from Cons.prems have "\<forall>x\<in>set xs. \<forall>y\<in>set xs.
      fn x y = Inr (if key x < key y then 1 else if key y < key x then - 1 else 0)"
    by simp
  from Cons.IH [OF this] obtain ys where ys: "insertion_sort fn xs = Inr ys" "mset ys = mset xs"
    "sorted_wrt (\<lambda>a b. key b \<le> key a) ys"
    "\<forall>k. filter (\<lambda>a. key a = k) ys = filter (\<lambda>a. key a = k) xs"
    by blast
  have "set ys = set xs" using ys(2) by (metis set_mset_mset)
  then have "\<forall>y\<in>set ys. fn x y =
      Inr (if key x < key y then 1 else if key y < key x then - 1 else 0)"
    using Cons.prems by simp
  from insert_by_stable [where key = key and fn = fn and x = x and ys = ys, OF this ys(3)]
  obtain zs where zs: "insert_by fn x ys = Inr zs"
    "mset zs = add_mset x (mset ys)" "sorted_wrt (\<lambda>a b. key b \<le> key a) zs"
    "\<forall>k. filter (\<lambda>a. key a = k) zs = filter (\<lambda>a. key a = k) (x # ys)"
    by blast
  have "insertion_sort fn (x # xs) = Inr zs" using ys(1) zs(1) by simp
  moreover have "mset zs = mset (x # xs)" using zs(2) ys(2) by simp
  moreover have "\<forall>k. filter (\<lambda>a. key a = k) zs = filter (\<lambda>a. key a = k) (x # xs)"
    using zs(4) ys(4) by simp
  ultimately show ?case using zs(3) by blast
qed

lemma insertion_sort_is_stable: "stable_sort insertion_sort"
  unfolding stable_sort_def
proof (intro allI impI)
  fix fn :: "item \<Rightarrow> item \<Rightarrow> error + int" and key :: "item \<Rightarrow> int" and xs
  assume "\<forall>x\<in>set xs. \<forall>y\<in>set xs.
      fn x y = Inr (if key x < key y then 1 else if key y < key x then - 1 else 0)"
  then show "\<exists>ys. insertion_sort fn xs = Inr ys \<and> mset ys = mset xs \<and>
      sorted_wrt (\<lambda>a b. key b \<le> key a) ys \<and>
      (\<forall>k. filter (\<lambda>a. key a = k) ys = filter (\<lambda>a. key a = k) xs)"
    by (rule insertion_sort_stable)
qed

lemma dispatch_loop_refreshed:
  assumes "\<forall>x\<in>set queue. resolved x"
  shows "dispatch_loop gw queue acc w =
           (w\<lparr>requests := requests w @ refresh_urls queue\<rparr>,
            acc @ refreshed_queue gw (requests w) queue)"
  using assms
proof (induction queue arbitrary: acc w)
  case Nil
  then show ?case by (simp add: refresh_urls_def)
next
  case (Cons x queue)
  have rest: "\<forall>x\<in>set queue. resolved x" using Cons.prems by simp
  note IH = Cons.IH [OF rest]
  show ?case
  proof (cases x)
    case Undefined
    have u: "refresh_urls (x # queue) = refresh_urls queue"
      using Undefined by (simp add: refresh_urls_def)
    show ?thesis unfolding u using Undefined IH [of acc w] by (simp add: reject_def)
  next
    case (OTrack r t)
    show ?thesis
    proof (cases "response t")
      case (Some b)
      have u: "refresh_urls (x # queue) = refresh_urls queue"
        using OTrack Some by (simp add: refresh_urls_def)
      have "dispatch_loop gw (x # queue) acc w = dispatch_loop gw queue (acc @ [x]) w"
        using OTrack Some by (simp add: item_dispatch_full del: item_dispatch.simps(1))
      then show ?thesis unfolding u using OTrack Some IH [of "acc @ [x]" w] by simp
    next
      case None
      then obtain s where s: "responseSimple t = Some s"
        using Cons.prems OTrack by (auto simp: resolved_def)
      let ?w = "w\<lparr>requests := requests w @ [track_url t]\<rparr>"
      have u: "refresh_urls (x # queue) = track_url t # refresh_urls queue"
        using OTrack None by (simp add: refresh_urls_def)
      have w: "?w\<lparr>requests := requests ?w @ refresh_urls queue\<rparr> =
          w\<lparr>requests := requests w @ track_url t # refresh_urls queue\<rparr>"
        by simp
      show ?thesis
      proof (cases "gw (requests w) (track_url t)")
        case failed: None
        have "dispatch_loop gw (x # queue) acc w = dispatch_loop gw queue acc ?w"
          using OTrack None s failed
          by (simp add: item_dispatch_simple del: item_dispatch.simps(1))
        also have "\<dots> = (?w\<lparr>requests := requests ?w @ refresh_urls queue\<rparr>,
            acc @ refreshed_queue gw (requests ?w) queue)"
          by (rule IH)
        finally show ?thesis unfolding u w using OTrack None failed by simp
      next
        case (Some body)
        let ?y = "OTrack r (t\<lparr>response := Some body\<rparr>)"
        have "dispatch_loop gw (x # queue) acc w = dispatch_loop gw queue (acc @ [?y]) ?w"
          using OTrack None s Some
          by (simp add: item_dispatch_simple del: item_dispatch.simps(1))
        also have "\<dots> = (?w\<lparr>requests := requests ?w @ refresh_urls queue\<rparr>,
            (acc @ [?y]) @ refreshed_queue gw (requests ?w) queue)"
          by (rule IH)
        finally show ?thesis unfolding u w using OTrack None Some by simp
      qed
    qed
  next
    case (OAlbum r a)
    then show ?thesis using Cons.prems by (simp add: resolved_def)
  next
    case (OArtist r a)
    then show ?thesis using Cons.prems by (simp add: resolved_def)
  next
    case (OQueue r q)
    then show ?thesis using Cons.prems by (simp add: resolved_def)
  qed
qed

lemma refreshed_queue_full: "\<forall>y\<in>set (refreshed_queue gw log queue). full y"
  by (induction gw log queue rule: refreshed_queue.induct)
    (auto simp: full_def split: option.splits)

lemma refreshed_queue_kept:
  "\<exists>kept. subseq kept queue \<and> list_all2 promoted kept (refreshed_queue gw log queue)"
proof (induction gw log queue rule: refreshed_queue.induct)
  case (1 gw log)
  then show ?case by simp
next
  case (2 gw log r t queue)
  show ?case
  proof (cases "response t")
    case (Some b)
    then obtain kept where k: "subseq kept queue"
      "list_all2 promoted kept (refreshed_queue gw log queue)"
      using 2(1) by auto
    have "promoted (OTrack r t) (OTrack r t)" by (simp add: promoted_def)
    then have "subseq (OTrack r t # kept) (OTrack r t # queue) \<and>
        list_all2 promoted (OTrack r t # kept) (refreshed_queue gw log (OTrack r t # queue))"
      using k Some by simp
    then show ?thesis by blast
  next
    case None
    show ?thesis
    proof (cases "gw log (track_url t)")
      case failed: None
      then obtain kept where k: "subseq kept queue"
        "list_all2 promoted kept (refreshed_queue gw (log @ [track_url t]) queue)"
        using 2(2) None by auto
      then have "subseq kept (OTrack r t # queue) \<and>
          list_all2 promoted kept (refreshed_queue gw log (OTrack r t # queue))"
        using None failed by (simp add: list_emb_Cons)
      then show ?thesis by blast
    next
      case (Some body)
      then obtain kept where k: "subseq kept queue"
        "list_all2 promoted kept (refreshed_queue gw (log @ [track_url t]) queue)"
        using 2(3) None by auto
      have "promoted (OTrack r t) (OTrack r (t\<lparr>response := Some body\<rparr>))"
        using None by (simp add: promoted_def)
      then have "subseq (OTrack r t # kept) (OTrack r t # queue) \<and>
          list_all2 promoted (OTrack r t # kept) (refreshed_queue gw log (OTrack r t # queue))"
        using k None Some by simp
      then show ?thesis by blast
    qed
  qed
qed (auto intro: list_emb_Cons)

lemma refreshed_queue_length: "length (refreshed_queue gw log queue) \<le> length queue"
  by (induction gw log queue rule: refreshed_queue.induct) (auto split: option.splits)

lemma refreshed_queue_all:
  "length (refreshed_queue gw log queue) = length queue \<Longrightarrow>
   list_all2 promoted queue (refreshed_queue gw log queue)"
proof (induction queue arbitrary: log)
  case Nil
  then show ?case by simp
next
  case (Cons x queue)
  have le: "\<And>l. length (refreshed_queue gw l queue) \<le> length queue"
    by (rule refreshed_queue_length)
  show ?case
  proof (cases x)
    case (OTrack r t)
    show ?thesis
    proof (cases "response t")
      case (Some b)
      then show ?thesis using Cons.IH [of log] Cons.prems OTrack by (simp add: promoted_def)
    next
      case None
      show ?thesis
      proof (cases "gw log (track_url t)")
        case failed: None
        then show ?thesis
          using Cons.prems OTrack None le [of "log @ [track_url t]"] by simp
      next
        case (Some body)
        then show ?thesis
          using Cons.IH [of "log @ [track_url t]"] Cons.prems OTrack None
          by (simp add: promoted_def)
      qed
    qed
  next
    case (OAlbum r a)
    then show ?thesis using Cons.prems le [of log] by simp
  next
    case (OArtist r a)
    then show ?thesis using Cons.prems le [of log] by simp
  next
    case (OQueue r q)
    then show ?thesis using Cons.prems le [of log] by simp
  next
    case Undefined
    then show ?thesis using Cons.prems le [of log] by simp
  qed
qed

lemma refreshed_queue_answered:
  assumes "\<forall>log url. gw log url \<noteq> None"
  shows "\<forall>x\<in>set queue. resolved x \<and> x \<noteq> Undefined \<Longrightarrow>
         length (refreshed_queue gw log queue) = length queue"
proof (induction queue arbitrary: log)
  case Nil
  then show ?case by simp
next
  case (Cons x queue)
  then obtain r t where x: "x = OTrack r t"
    by (cases x) (simp_all add: resolved_def)
  obtain body where "gw log (track_url t) = Some body" using assms by fastforce
  then show ?case using Cons x by simp
qed

lemma sort_by_popularity:
  assumes "stable_sort engine"
    and "\<forall>y\<in>set queue. full y \<and> item_popularity y \<noteq> Inr None"
  shows "\<exists>sorted. Queue_sort engine (compare_by item_popularity) queue = Inr sorted \<and>
           mset sorted = mset queue \<and>
           sorted_wrt (\<lambda>a b. popularity_of b \<le> popularity_of a) sorted \<and>
           (\<forall>k. filter (\<lambda>a. popularity_of a = k) sorted =
                filter (\<lambda>a. popularity_of a = k) queue)"
proof -
  have pop: "\<And>y. y \<in> set queue \<Longrightarrow> item_popularity y = Inr (Some (popularity_of y))"
  proof -
    fix y assume y: "y \<in> set queue"
    then have "full y" using assms(2) by blast
    then obtain r t where t: "y = OTrack r t"
      by (cases y) (simp_all add: full_def)
    then have "item_popularity y = Inr (Track_popularity t)" by (simp add: item_popularity_def)
    moreover have "item_popularity y \<noteq> Inr None" using assms(2) y by blast
    ultimately obtain n where "item_popularity y = Inr (Some n)" by (cases "Track_popularity t") auto
    then show "item_popularity y = Inr (Some (popularity_of y))" by (simp add: popularity_of_def)
  qed
  have cmp: "\<forall>x\<in>set queue. \<forall>y\<in>set queue. compare_by item_popularity x y =
      Inr (if popularity_of x < popularity_of y then 1
           else if popularity_of y < popularity_of x then - 1 else 0)"
    using pop by (simp add: compare_by_def descending_def)
  have def: "filter (\<lambda>x. x \<noteq> Undefined) queue = queue"
    using assms(2) by (auto simp: full_def filter_id_conv)
  have und: "filter (\<lambda>x. x = Undefined) queue = []"
    using assms(2) by (auto simp: full_def filter_empty_conv)
  have "\<exists>ys. engine (compare_by item_popularity) queue = Inr ys \<and> mset ys = mset queue \<and>
      sorted_wrt (\<lambda>a b. popularity_of b \<le> popularity_of a) ys \<and>
      (\<forall>k. filter (\<lambda>a. popularity_of a = k) ys = filter (\<lambda>a. popularity_of a = k) queue)"
    using assms(1) cmp unfolding stable_sort_def by blast
  then obtain ys where ys: "engine (compare_by item_popularity) queue = Inr ys"
    "mset ys = mset queue" "sorted_wrt (\<lambda>a b. popularity_of b \<le> popularity_of a) ys"
    "\<forall>k. filter (\<lambda>a. popularity_of a = k) ys = filter (\<lambda>a. popularity_of a = k) queue"
    by blast
  have "Queue_sort engine (compare_by item_popularity) queue = Inr ys"
    using ys(1) def und by (simp add: Queue_sort_def)
  then show ?thesis using ys(2,3,4) by blast
qed

text \<open>
  C6. The claim is that the refresh promotes each Track with a simple response and that the
  queue is then sorted. With the track request for \<^verbatim>\<open>track1\<close> rejected, the refresh drops that
  Track: \<open>order\<close> leaves one Track of the two, and the pipeline on
  \<^verbatim>\<open>#ORDER BY POPULARITY\<close> followed by the two entries puts out one URI, where without the
  directive it puts out both.
\<close>

theorem order_by_popularity_counterexample:
  "Playlist_order failing_gateway no_lastfm insertion_sort popularity_playlist
       \<lparr>requests = [], allocated = 2\<rparr> =
     (\<lparr>requests = [''https://api.spotify.com/v1/tracks/track1'',
                    ''https://api.spotify.com/v1/tracks/track2''],
       allocated = 2\<rparr>,
      Inr (popularity_playlist\<lparr>entries :=
        [OTrack 1 ((Track ''track2'' (Some (simple_of ''track2'')))
                     \<lparr>response := Some (full_of ''track2'' 70)\<rparr>)]\<rparr>)) \<and>
   and_then
     (Playlist (''#ORDER BY POPULARITY'' @ [CHR 0x0A] @ ''track1'' @ [CHR 0x0A] @ ''track2''))
     (Playlist_dispatch failing_gateway no_lastfm insertion_sort)
     \<lparr>requests = [], allocated = 0\<rparr> =
   (\<lparr>requests = [''https://api.spotify.com/v1/search?type=track&q=track1'',
                  ''https://api.spotify.com/v1/search?type=track&q=track2'',
                  ''https://api.spotify.com/v1/tracks/track1'',
                  ''https://api.spotify.com/v1/tracks/track2''],
     allocated = 2\<rparr>,
    Inr ''spotify:track:track2'') \<and>
   and_then (Playlist (''track1'' @ [CHR 0x0A] @ ''track2''))
     (Playlist_dispatch failing_gateway no_lastfm insertion_sort)
     \<lparr>requests = [], allocated = 0\<rparr> =
   (\<lparr>requests = [''https://api.spotify.com/v1/search?type=track&q=track1'',
                  ''https://api.spotify.com/v1/search?type=track&q=track2''],
     allocated = 2\<rparr>,
    Inr (''spotify:track:track1'' @ [CHR 0x0A] @ ''spotify:track:track2''))"
  by code_simp

text \<open>
  C6, as amended. With the ordering \<open>popularity\<close>, on a queue whose entries are
  \<^verbatim>\<open>undefined\<close> or Tracks with a simple or a full response, which is what \<open>fetchTracks\<close> and
  \<open>dedup\<close> leave whatever the input, \<open>order\<close> refreshes the queue and then sorts it. The
  refresh requests \<^verbatim>\<open>/v1/tracks/<id>\<close> for each Track without a full response, in order, and
  leaves exactly \<open>refreshed_queue\<close>: the Tracks with a full response as they are, the others
  with the body as their full response where the request is answered and dropped where it is
  rejected, \<^verbatim>\<open>undefined\<close> dropped; so what is left are Tracks with a full response, each a
  Track of the queue, in the order of the queue, and all of them when none is dropped, as
  when the service answers every request and no entry is \<^verbatim>\<open>undefined\<close>. The result of
  \<open>order\<close> is that of \<open>orderByPopularity\<close> on them. When the sort of the runtime is
  stable and each Track left has a popularity, the sort returns a permutation in descending
  order of popularity in which the Tracks of equal popularity keep their relative order.
\<close>

theorem order_by_popularity:
  fixes gw :: gateway and w :: world and this :: playlist
  defines "refreshed \<equiv> refreshed_queue gw (requests w) (entries this)"
    and "w' \<equiv> w\<lparr>requests := requests w @ refresh_urls (entries this)\<rparr>"
  assumes "ordering this = Popularity"
    and "\<forall>x\<in>set (entries this). resolved x"
  shows "Playlist_refreshTracks gw this w = (w', Inr (this\<lparr>entries := refreshed\<rparr>)) \<and>
         Playlist_order gw lf engine this w =
           (w', Playlist_orderByPopularity engine (this\<lparr>entries := refreshed\<rparr>)) \<and>
         (\<forall>y\<in>set refreshed. full y) \<and>
         (\<exists>kept. subseq kept (entries this) \<and> list_all2 promoted kept refreshed) \<and>
         (length refreshed = length (entries this) \<longrightarrow>
            list_all2 promoted (entries this) refreshed) \<and>
         ((\<forall>log url. gw log url \<noteq> None) \<and> Undefined \<notin> set (entries this) \<longrightarrow>
            list_all2 promoted (entries this) refreshed) \<and>
         (stable_sort engine \<and> (\<forall>y\<in>set refreshed. item_popularity y \<noteq> Inr None) \<longrightarrow>
            (\<exists>sorted.
               Playlist_orderByPopularity engine (this\<lparr>entries := refreshed\<rparr>) =
                 Inr (this\<lparr>entries := sorted\<rparr>) \<and>
               mset sorted = mset refreshed \<and>
               sorted_wrt (\<lambda>a b. popularity_of b \<le> popularity_of a) sorted \<and>
               (\<forall>k. filter (\<lambda>a. popularity_of a = k) sorted =
                    filter (\<lambda>a. popularity_of a = k) refreshed)))"
proof -
  have f: "\<forall>y\<in>set refreshed. full y"
    unfolding refreshed_def by (rule refreshed_queue_full)
  have d: "dispatch_loop gw (entries this) [] w = (w', refreshed)"
    using dispatch_loop_refreshed [OF assms(4), of gw "[]" w]
    by (simp add: refreshed_def w'_def)
  have fl: "Queue_flatten refreshed = refreshed" using f by (rule flatten_full)
  have r: "Playlist_refreshTracks gw this w = (w', Inr (this\<lparr>entries := refreshed\<rparr>))"
    using d fl
    by (simp add: Playlist_refreshTracks_def Queue_dispatch_def and_then_def resolve_def)
  have o: "Playlist_order gw lf engine this w =
      (w', Playlist_orderByPopularity engine (this\<lparr>entries := refreshed\<rparr>))"
    using assms(3) r by (simp add: Playlist_order_def and_then_def lift_def)
  have k: "\<exists>kept. subseq kept (entries this) \<and> list_all2 promoted kept refreshed"
    unfolding refreshed_def by (rule refreshed_queue_kept)
  have n: "length refreshed = length (entries this)"
    if "\<forall>log url. gw log url \<noteq> None" and "Undefined \<notin> set (entries this)"
  proof -
    have "\<forall>x\<in>set (entries this). resolved x \<and> x \<noteq> Undefined"
      using assms(4) that(2) by blast
    then show ?thesis
      unfolding refreshed_def using refreshed_queue_answered [OF that(1)] by blast
  qed
  have a: "length refreshed = length (entries this) \<longrightarrow>
      list_all2 promoted (entries this) refreshed"
    unfolding refreshed_def using refreshed_queue_all by blast
  have b: "(\<forall>log url. gw log url \<noteq> None) \<and> Undefined \<notin> set (entries this) \<longrightarrow>
      list_all2 promoted (entries this) refreshed"
    using a n by blast
  have s: "\<exists>sorted.
      Playlist_orderByPopularity engine (this\<lparr>entries := refreshed\<rparr>) =
        Inr (this\<lparr>entries := sorted\<rparr>) \<and>
      mset sorted = mset refreshed \<and>
      sorted_wrt (\<lambda>a b. popularity_of b \<le> popularity_of a) sorted \<and>
      (\<forall>k. filter (\<lambda>a. popularity_of a = k) sorted =
           filter (\<lambda>a. popularity_of a = k) refreshed)"
    if st: "stable_sort engine" and p: "\<forall>y\<in>set refreshed. item_popularity y \<noteq> Inr None"
  proof -
    have "\<forall>y\<in>set refreshed. full y \<and> item_popularity y \<noteq> Inr None" using f p by blast
    from sort_by_popularity [OF st this] obtain sorted where
      q: "Queue_sort engine (compare_by item_popularity) refreshed = Inr sorted"
        "mset sorted = mset refreshed"
        "sorted_wrt (\<lambda>a b. popularity_of b \<le> popularity_of a) sorted"
        "\<forall>k. filter (\<lambda>a. popularity_of a = k) sorted =
             filter (\<lambda>a. popularity_of a = k) refreshed"
      by blast
    have "Playlist_orderByPopularity engine (this\<lparr>entries := refreshed\<rparr>) =
        Inr (this\<lparr>entries := sorted\<rparr>)"
      using q(1) by (simp add: Playlist_orderByPopularity_def)
    then show ?thesis using q(2,3,4) by blast
  qed
  show ?thesis using r o f k a b s by blast
qed

theorem order_by_popularity_witness:
  "ordering popularity_playlist = Popularity \<and>
   stable_sort insertion_sort \<and>
   (\<forall>log url. sample_gateway log url \<noteq> None) \<and>
   list_all2 promoted (entries popularity_playlist)
     [OTrack 0 ((Track ''track1'' (Some (simple_of ''track1'')))
                  \<lparr>response := Some (full_of ''track1'' 30)\<rparr>),
      OTrack 1 ((Track ''track2'' (Some (simple_of ''track2'')))
                  \<lparr>response := Some (full_of ''track2'' 70)\<rparr>)] \<and>
   Playlist_order sample_gateway no_lastfm insertion_sort popularity_playlist
       \<lparr>requests = [], allocated = 2\<rparr> =
     (\<lparr>requests = [''https://api.spotify.com/v1/tracks/track1'',
                    ''https://api.spotify.com/v1/tracks/track2''],
       allocated = 2\<rparr>,
      Inr (popularity_playlist\<lparr>entries :=
        [OTrack 1 ((Track ''track2'' (Some (simple_of ''track2'')))
                     \<lparr>response := Some (full_of ''track2'' 70)\<rparr>),
         OTrack 0 ((Track ''track1'' (Some (simple_of ''track1'')))
                     \<lparr>response := Some (full_of ''track1'' 30)\<rparr>)]\<rparr>)) \<and>
   sorted_wrt (\<lambda>a b. popularity_of b \<le> popularity_of a)
     [OTrack 1 ((Track ''track2'' (Some (simple_of ''track2'')))
                  \<lparr>response := Some (full_of ''track2'' 70)\<rparr>),
      OTrack 0 ((Track ''track1'' (Some (simple_of ''track1'')))
                  \<lparr>response := Some (full_of ''track1'' 30)\<rparr>)]"
proof -
  let ?w = "\<lparr>requests = [], allocated = 2\<rparr>"
  let ?t1 = "OTrack 0 ((Track ''track1'' (Some (simple_of ''track1'')))
                         \<lparr>response := Some (full_of ''track1'' 30)\<rparr>)"
  let ?t2 = "OTrack 1 ((Track ''track2'' (Some (simple_of ''track2'')))
                         \<lparr>response := Some (full_of ''track2'' 70)\<rparr>)"
  have h1: "ordering popularity_playlist = Popularity"
    by (simp add: popularity_playlist_def)
  have h2: "\<forall>x\<in>set (entries popularity_playlist). resolved x"
    by code_simp
  have st: "stable_sort insertion_sort" by (rule insertion_sort_is_stable)
  have rq: "refreshed_queue sample_gateway (requests ?w) (entries popularity_playlist) =
      [?t1, ?t2]"
    by code_simp
  have rw: "?w\<lparr>requests := requests ?w @ refresh_urls (entries popularity_playlist)\<rparr> =
      \<lparr>requests = [''https://api.spotify.com/v1/tracks/track1'',
                    ''https://api.spotify.com/v1/tracks/track2''],
        allocated = 2\<rparr>"
    by code_simp
  have h3: "\<forall>y\<in>set [?t1, ?t2]. item_popularity y \<noteq> Inr None"
    by code_simp
  have h4: "\<forall>log url. sample_gateway log url \<noteq> None"
    by (simp add: sample_gateway_def)
  have h5: "Undefined \<notin> set (entries popularity_playlist)"
    by code_simp
  note T = order_by_popularity [where gw = sample_gateway and w = ?w
      and this = popularity_playlist and lf = no_lastfm and engine = insertion_sort,
      OF h1 h2, unfolded rq rw]
  from T have o: "Playlist_order sample_gateway no_lastfm insertion_sort popularity_playlist ?w =
      (\<lparr>requests = [''https://api.spotify.com/v1/tracks/track1'',
                     ''https://api.spotify.com/v1/tracks/track2''],
        allocated = 2\<rparr>,
       Playlist_orderByPopularity insertion_sort (popularity_playlist\<lparr>entries := [?t1, ?t2]\<rparr>))"
    by blast
  from T st h3 obtain sorted where
    so: "Playlist_orderByPopularity insertion_sort (popularity_playlist\<lparr>entries := [?t1, ?t2]\<rparr>) =
          Inr (popularity_playlist\<lparr>entries := sorted\<rparr>)"
    and sw: "sorted_wrt (\<lambda>a b. popularity_of b \<le> popularity_of a) sorted"
    by blast
  have co: "Playlist_orderByPopularity insertion_sort
        (popularity_playlist\<lparr>entries := [?t1, ?t2]\<rparr>) =
      Inr (popularity_playlist\<lparr>entries := [?t2, ?t1]\<rparr>)"
    by code_simp
  have "entries (popularity_playlist\<lparr>entries := sorted\<rparr>) =
      entries (popularity_playlist\<lparr>entries := [?t2, ?t1]\<rparr>)"
    using so co by simp
  then have "sorted = [?t2, ?t1]" by simp
  then have "sorted_wrt (\<lambda>a b. popularity_of b \<le> popularity_of a) [?t2, ?t1]"
    using sw by simp
  moreover have "list_all2 promoted (entries popularity_playlist) [?t1, ?t2]"
    using T h4 h5 by blast
  moreover have "Playlist_order sample_gateway no_lastfm insertion_sort popularity_playlist ?w =
      (\<lparr>requests = [''https://api.spotify.com/v1/tracks/track1'',
                     ''https://api.spotify.com/v1/tracks/track2''],
        allocated = 2\<rparr>,
       Inr (popularity_playlist\<lparr>entries := [?t2, ?t1]\<rparr>))"
    using o co by simp
  ultimately show ?thesis using h1 st h4 by blast
qed

end
